theory Spec2Isabelle
  imports Complex_Main
begin

section \<open>Python values, exceptions and the surroundings of the process\<close>

text \<open>
  The script \<^verbatim>\<open>tools/eugene.py\<close> is a command-line front end: it reads its arguments,
  asks questions on the console, sets environment variables and starts external programs.
  The embedding threads a \<open>world\<close> through every function. Everything the script does to
  its surroundings is appended to the \<open>trace\<close> of the world, in the order in which it
  happens; everything the surroundings decide (what the user types, whether an external
  program can be started and how it exits, whether a directory can be created) is read
  from the world.

  Assumptions of the model, all of them about the interpreter and not about the script:
  assertions are enabled (the interpreter runs without \<^verbatim>\<open>-O\<close>); the imports at the top
  of the module succeeded (lines 16 to 30), so \<^verbatim>\<open>setup\<close> is not part of a run; writing to
  the console does not fail; a character is a \<open>char\<close> and \<open>lower\<close> folds the letters A
  to Z only. The colour of a styled line is not part of an event: \<^verbatim>\<open>get_color\<close> (lines
  35 to 42) draws colours at random until one differs from the previous one, and the model
  takes the draw to come to an end.
\<close>

datatype exn =
    AssertionError
  | SystemExit int
  | EOFError
  | IndexError
  | OSError
  | CalledProcessError int

datatype 'a result = Ret 'a | Raise exn

text \<open>What \<^verbatim>\<open>autocomplete\<close> hands back: \<^verbatim>\<open>False\<close>, \<^verbatim>\<open>None\<close> or a string.\<close>

datatype pyval = PyFalse | PyNone | PyStr string

fun truthy :: "pyval \<Rightarrow> bool" where
  "truthy PyFalse = False"
| "truthy PyNone = False"
| "truthy (PyStr s) = (s \<noteq> [])"

text \<open>
  An external program either cannot be started (\<^verbatim>\<open>subprocess\<close> raises an \<^verbatim>\<open>OSError\<close>,
  for example \<^verbatim>\<open>FileNotFoundError\<close>) or runs and exits with a status.
\<close>

datatype outcome = Exited int | SpawnFailed

datatype event =
    Print string
  | PrintStyle string
  | Input string
  | SetEnv string string
  | Mkdir string
  | Run "string list"
  | RunShell string
  | CheckCall "string list"

record world =
  retry_avail :: bool
  environ :: "string \<Rightarrow> string option"
  stdin :: "string list"
  trace :: "event list"
  spawn :: "event list \<Rightarrow> string list \<Rightarrow> outcome"
  mkdir_ok :: "event list \<Rightarrow> string \<Rightarrow> bool"

type_synonym 'a prog = "world \<Rightarrow> 'a result \<times> world"

definition ret :: "'a \<Rightarrow> 'a prog" where
  "ret v w = (Ret v, w)"

definition bnd :: "'a prog \<Rightarrow> ('a \<Rightarrow> 'b prog) \<Rightarrow> 'b prog" where
  "bnd m f w = (case m w of (Ret v, w') \<Rightarrow> f v w' | (Raise e, w') \<Rightarrow> (Raise e, w'))"

definition seq :: "'a prog \<Rightarrow> 'b prog \<Rightarrow> 'b prog" where
  "seq m k = bnd m (\<lambda>_. k)"

definition emit :: "event \<Rightarrow> world \<Rightarrow> world" where
  "emit e w = w\<lparr>trace := trace w @ [e]\<rparr>"

text \<open>A result that was computed without the world, as a step of a program.\<close>

definition lift :: "'a result \<Rightarrow> 'a prog" where
  "lift r w = (r, w)"

subsection \<open>The primitives of the standard library that the script calls\<close>

definition print :: "string \<Rightarrow> unit prog" where
  "print s w = (Ret (), emit (Print s) w)"

text \<open>\<^verbatim>\<open>print_style\<close> (lines 45 to 48) prints its text after a coloured marker.\<close>

definition print_style :: "string \<Rightarrow> unit prog" where
  "print_style s w = (Ret (), emit (PrintStyle s) w)"

text \<open>\<^verbatim>\<open>input(prompt)\<close>: the next line of the console, \<^verbatim>\<open>EOFError\<close> when there is none.\<close>

definition input :: "string \<Rightarrow> string prog" where
  "input prompt w =
     (case stdin w of
        [] \<Rightarrow> (Raise EOFError, emit (Input prompt) w)
      | l # ls \<Rightarrow> (Ret l, emit (Input prompt) (w\<lparr>stdin := ls\<rparr>)))"

definition environ_set :: "string \<Rightarrow> string \<Rightarrow> unit prog" where
  "environ_set k v w = (Ret (), emit (SetEnv k v) (w\<lparr>environ := (environ w)(k \<mapsto> v)\<rparr>))"

text \<open>\<^verbatim>\<open>subprocess.run(argv)\<close>: the exit status is returned to the caller and not checked.\<close>

definition sp_run :: "string list \<Rightarrow> unit prog" where
  "sp_run argv w =
     (case spawn w (trace w) argv of
        Exited n \<Rightarrow> (Ret (), emit (Run argv) w)
      | SpawnFailed \<Rightarrow> (Raise OSError, emit (Run argv) w))"

text \<open>
  \<^verbatim>\<open>subprocess.run(cmd, shell=True, stdout=PIPE)\<close>: the shell is given the command line;
  the output that is captured is dropped by the caller.
\<close>

definition sp_run_shell :: "string \<Rightarrow> unit prog" where
  "sp_run_shell cmd w =
     (case spawn w (trace w) [''/bin/sh'', ''-c'', cmd] of
        Exited n \<Rightarrow> (Ret (), emit (RunShell cmd) w)
      | SpawnFailed \<Rightarrow> (Raise OSError, emit (RunShell cmd) w))"

text \<open>\<^verbatim>\<open>subprocess.check_call(argv)\<close>: a status other than 0 raises.\<close>

definition sp_check_call :: "string list \<Rightarrow> unit prog" where
  "sp_check_call argv w =
     (case spawn w (trace w) argv of
        Exited n \<Rightarrow>
          (if n = 0 then (Ret (), emit (CheckCall argv) w)
           else (Raise (CalledProcessError n), emit (CheckCall argv) w))
      | SpawnFailed \<Rightarrow> (Raise OSError, emit (CheckCall argv) w))"

definition os_mkdir :: "string \<Rightarrow> unit prog" where
  "os_mkdir path w =
     (if mkdir_ok w (trace w) path then (Ret (), emit (Mkdir path) w)
      else (Raise OSError, emit (Mkdir path) w))"

subsection \<open>Strings\<close>

definition lower_char :: "char \<Rightarrow> char" where
  "lower_char c =
     (case map_of (zip ''ABCDEFGHIJKLMNOPQRSTUVWXYZ'' ''abcdefghijklmnopqrstuvwxyz'') c of
        Some d \<Rightarrow> d
      | None \<Rightarrow> c)"

definition lower :: "string \<Rightarrow> string" where
  "lower s = map lower_char s"

definition is_space :: "char \<Rightarrow> bool" where
  "is_space c = (c \<in> set [CHR '' '', CHR 0x09, CHR 0x0A, CHR 0x0B, CHR 0x0C, CHR 0x0D])"

text \<open>\<^verbatim>\<open>s.split()\<close>: the maximal runs of characters that are not white space.\<close>

fun split_acc :: "string \<Rightarrow> string \<Rightarrow> string list" where
  "split_acc cur [] = (if cur = [] then [] else [cur])"
| "split_acc cur (c # cs) =
     (if is_space c then (if cur = [] then split_acc [] cs else cur # split_acc [] cs)
      else split_acc (cur @ [c]) cs)"

definition split_ws :: "string \<Rightarrow> string list" where
  "split_ws s = split_acc [] s"

text \<open>\<^verbatim>\<open>sub in s\<close> on strings: \<open>sub\<close> occurs in \<open>s\<close> as a contiguous piece.\<close>

fun starts_with :: "string \<Rightarrow> string \<Rightarrow> bool" where
  "starts_with [] s = True"
| "starts_with (c # cs) [] = False"
| "starts_with (c # cs) (d # ds) = (c = d \<and> starts_with cs ds)"

fun contains :: "string \<Rightarrow> string \<Rightarrow> bool" where
  "contains sub [] = (sub = [])"
| "contains sub (d # ds) = (starts_with sub (d # ds) \<or> contains sub ds)"

text \<open>\<^verbatim>\<open>xs[0]\<close> raises \<^verbatim>\<open>IndexError\<close> on an empty list.\<close>

definition item0 :: "'a list \<Rightarrow> 'a result" where
  "item0 xs = (case xs of [] \<Rightarrow> Raise IndexError | x # _ \<Rightarrow> Ret x)"

text \<open>
  Modelled from the spec: \<^verbatim>\<open>pylev.classic_levenshtein\<close> is imported from a package
  outside the sources (line 19). The spec calls it the classic Levenshtein distance, where
  inserting, deleting or replacing one character costs 1; this is its textbook recursion.
\<close>

fun lev :: "'a list \<Rightarrow> 'a list \<Rightarrow> nat" where
  "lev [] ys = length ys"
| "lev (x # xs) [] = length (x # xs)"
| "lev (x # xs) (y # ys) =
     min (min (lev xs (y # ys) + 1) (lev (x # xs) ys + 1))
         (lev xs ys + (if x \<noteq> y then 1 else 0))"

section \<open>The command registry (lines 63 to 70)\<close>

record param =
  field :: string
  desc :: string
  subcmds :: "string list"

definition Param :: "string \<Rightarrow> string \<Rightarrow> string list \<Rightarrow> param" where
  "Param f d s = \<lparr>field = f, desc = d, subcmds = s\<rparr>"

definition AvailableParams :: "param list" where
  "AvailableParams =
     [Param ''build'' ''build project only'' [''test: builds tests'', ''doc: builds doc''],
      Param ''test'' ''build tests'' [''runtest: runs tests''],
      Param ''lint'' ''run local linters'' [''style: clang-format'', ''tidy: ctidy''],
      Param ''doc'' ''build local documentation'' [''updoc: uploads to gh-pages''],
      Param ''clean'' ''clean metadata''
        [''ignored: removes all files and dirs from the .gitignore'']]"

section \<open>The fuzzy matcher (lines 72 to 92)\<close>

definition offer_msg :: "string \<Rightarrow> string" where
  "offer_msg avail_arg = ''Proceed with '' @ [CHR 0x27] @ avail_arg @ [CHR 0x27] @ ''? Y/n: ''"

text \<open>
  The loop of lines 83 to 90 over the names that are left. A name within the required
  distance is offered and ends the loop, by \<^verbatim>\<open>return\<close> or by \<^verbatim>\<open>break\<close>; line 91
  prints an empty line on every way out of the loop but an exception.
\<close>

fun scan :: "string \<Rightarrow> real \<Rightarrow> string list \<Rightarrow> pyval prog" where
  "scan arg required [] = seq (print []) (ret PyNone)"
| "scan arg required (avail_arg # rest) =
     (let lev_val = lev arg avail_arg in
      if real lev_val \<le> required then
        seq (print_style (offer_msg avail_arg))
          (bnd (input [])
            (\<lambda>answer.
               if lower answer = ''y'' then seq (print []) (ret (PyStr avail_arg))
               else seq (print []) (ret PyNone)))
      else scan arg required rest)"

definition autocomplete :: "string \<Rightarrow> pyval prog" where
  "autocomplete arg w =
     (if \<not> retry_avail w then (Ret PyFalse, w)
      else
        (let w1 = w\<lparr>retry_avail := \<not> retry_avail w\<rparr>;
             required = 0.5 * real (length arg);
             avail_args = map field AvailableParams
         in scan arg required avail_args w1))"

section \<open>The process runner and the workflows (lines 55 to 165)\<close>

definition do_if :: "string \<Rightarrow> string \<Rightarrow> bool \<Rightarrow> unit prog" where
  "do_if cmd msg qprompt =
     (if qprompt then
        bnd (input (msg @ '' Ok? ''))
          (\<lambda>answer.
             let out = lower answer in
             if out \<noteq> [] \<and> out \<noteq> ''y'' then ret () else sp_run (split_ws cmd))
      else sp_run (split_ws cmd))"

definition cmake_command :: "string \<times> string \<Rightarrow> string list" where
  "cmake_command compiler_matrix =
     split_ws (''cmake -S. -Bbuild -GNinja             -DCMAKE_C_COMPILER='' @ fst compiler_matrix
               @ ''             -DCMAKE_CXX_COMPILER='' @ snd compiler_matrix)"

definition conan_install_command :: "string list" where
  "conan_install_command = split_ws ''conan install . -if build --build=missing''"

text \<open>The body of the \<^verbatim>\<open>try\<close> of lines 103 to 108.\<close>

definition config_steps :: "string \<times> string \<Rightarrow> unit prog" where
  "config_steps compiler_matrix =
     seq (sp_check_call conan_install_command)
    (seq (sp_run conan_install_command)
    (seq (sp_check_call (cmake_command compiler_matrix))
    (seq (sp_run (cmake_command compiler_matrix))
         (print_style ''Configuration successful!''))))"

text \<open>The bare \<^verbatim>\<open>except\<close> of line 109 takes every exception of the body.\<close>

definition do_config_cmd :: "string \<times> string \<Rightarrow> bool prog" where
  "do_config_cmd compiler_matrix =
     seq (environ_set ''CC'' (fst compiler_matrix))
    (seq (environ_set ''CXX'' (snd compiler_matrix))
    (seq (print_style ''Trying to configure project ...'')
         (\<lambda>w. case config_steps compiler_matrix w of
                 (Ret u, w') \<Rightarrow> (Ret True, w')
               | (Raise e, w') \<Rightarrow> seq (print_style ''Configuration failed :('') (ret False) w')))"

text \<open>Lines 116 to 120: only an \<^verbatim>\<open>OSError\<close> is taken, and the primitives raise no other.\<close>

definition make_build_dir :: "unit prog" where
  "make_build_dir w =
     (case seq (os_mkdir ''build/'') (print ''INFO: Created 'build/' directory'') w of
        (Raise OSError, w') \<Rightarrow>
          print_style ''INFO: 'build/' directory already exists'' w'
      | r \<Rightarrow> r)"

definition do_config :: "unit prog" where
  "do_config =
     seq make_build_dir
       (bnd (do_config_cmd (''gcc-11'', ''g++-11''))
         (\<lambda>ok1.
            if \<not> ok1 then
              bnd (do_config_cmd (''gcc'', ''g++''))
                (\<lambda>ok2. if \<not> ok2 then (\<lambda>w. (Raise (SystemExit (- 1)), w)) else ret ())
            else ret ()))"

definition ninja_command :: string where
  "ninja_command = ''ninja -Cbuild -j4''"

definition do_build :: "bool \<Rightarrow> bool \<Rightarrow> unit prog" where
  "do_build test doc =
     seq do_config
    (seq (if test then environ_set ''EUGENE_BUILD_TESTS'' ''1'' else ret ())
    (seq (print_style (''Building project'' @ (if test then '' and tests'' else [])))
    (seq (sp_run (split_ws ninja_command))
         (if doc then (\<lambda>w. (Raise AssertionError, w)) else ret ()))))"

definition do_run_test :: "unit prog" where
  "do_run_test =
     seq (print_style ''Running tests'')
         (sp_run (split_ws ''ctest --rerun-failed --output-on-failure --test-dir build/''))"

definition do_updoc :: "unit prog" where
  "do_updoc = print ''Uploading docs''"

definition do_lint :: "unit prog" where
  "do_lint =
     seq (print ''Linting'')
    (seq (sp_run (split_ws ''clang-format-all src/core src/eugene-api''))
         (sp_run_shell (''find . -name '' @ [CHR 0x22] @ ''CMakeLists.txt'' @ [CHR 0x22]
                        @ '' | xargs cmake-format -i'')))"

definition do_clean :: "bool \<Rightarrow> unit prog" where
  "do_clean is_kind =
     seq (do_if ''rm -rf build'' ''Removing build directory'' is_kind)
    (seq (do_if ''rm -f build.log'' ''Removing build logs'' is_kind)
         (print_style ''Clean without scratching''))"

section \<open>The dispatcher (lines 168 to 227)\<close>

text \<open>
  The text of the usage block, without the colour codes; the bullet of line 172 is written
  as the three bytes of its UTF-8 form.
\<close>

definition usage_entry :: "param \<Rightarrow> string" where
  "usage_entry f =
     [CHR 0x09, CHR 0xE2, CHR 0x80, CHR 0xA2] @ '' '' @ field f @ '' is used to '' @ desc f
     @ [CHR 0x0A]
     @ concat (map (\<lambda>sc. [CHR 0x09, CHR 0x09] @ '' - '' @ sc @ [CHR 0x0A]) (subcmds f))"

definition usage :: "unit prog" where
  "usage =
     print ([CHR 0x0A, CHR 0x09] @ ''Eugene multifunctional script'' @ [CHR 0x0A, CHR 0x09]
            @ ''============================='' @ [CHR 0x0A, CHR 0x0A]
            @ concat (map usage_entry AvailableParams))"

text \<open>
  The flags of lines 198 and 199; the index \<^verbatim>\<open>cmd_args[0]\<close> is read only where
  \<^verbatim>\<open>cmd_argc == 1\<close> let the \<^verbatim>\<open>and\<close> go on.
\<close>

definition sub_arg_has :: "string \<Rightarrow> string list \<Rightarrow> int \<Rightarrow> bool result" where
  "sub_arg_has word cmd_args cmd_argc =
     (if cmd_argc = 1 then
        (case item0 cmd_args of Ret a \<Rightarrow> Ret (contains word a) | Raise e \<Rightarrow> Raise e)
      else Ret False)"

function parse :: "string list \<Rightarrow> string \<Rightarrow> string list \<Rightarrow> int \<Rightarrow> unit prog" where
  "parse cmd_line cmd cmd_args cmd_argc w =
     (if \<not> cmd_argc \<le> 1 then (Raise AssertionError, w)
      else if cmd = ''build'' then
        (if cmd_argc = 1 then
           bnd (lift (item0 cmd_args))
             (\<lambda>a. do_build (contains ''test'' a) (contains ''doc'' a)) w
         else do_build False False w)
      else if cmd = ''config'' then
        (if cmd_argc = 0 then do_config w else (Raise AssertionError, w))
      else if cmd = ''test'' then
        seq (do_build True False)
          (bnd (lift (sub_arg_has ''run'' cmd_args cmd_argc))
            (\<lambda>run. if run then do_run_test else ret ())) w
      else if cmd = ''clean'' \<or> cmd = ''mrproper'' then
        bnd (lift (sub_arg_has ''force'' cmd_args cmd_argc))
          (\<lambda>has_force.
             let forced = (has_force \<or> cmd_argc = 0) in
             bnd (lift (sub_arg_has ''kind'' cmd_args cmd_argc))
               (\<lambda>kind. do_clean (kind \<and> \<not> forced))) w
      else if cmd = ''lint'' then
        (if cmd_argc = 0 then do_lint w else (Raise AssertionError, w))
      else if cmd = ''doc'' then
        seq (do_build False True)
          (bnd (lift (sub_arg_has ''up'' cmd_args cmd_argc))
            (\<lambda>up. if up then do_updoc else ret ())) w
      else if cmd = ''version'' then print ''Eugene 0.01'' w
      else
        (case seq usage (seq (print [CHR 0x0A]) (autocomplete cmd)) w of
           (Ret actual_cmd, w') \<Rightarrow>
             (if truthy actual_cmd then
                (case actual_cmd of
                   PyStr name \<Rightarrow> parse cmd_line name cmd_args cmd_argc w'
                 | _ \<Rightarrow> (Ret (), w'))
              else (Ret (), w'))
         | (Raise e, w') \<Rightarrow> (Raise e, w')))"
  by pat_completeness auto

text \<open>Lines 221 to 227: the entry point, on the argument vector of the process.\<close>

definition main :: "string list \<Rightarrow> unit prog" where
  "main argv =
     (if length argv < 2 then seq usage (\<lambda>w. (Raise (SystemExit 0), w))
      else
        (let args = map lower argv
         in parse (drop 1 args) (args ! 1) (drop 2 args) (int (length args) - 2)))"

section \<open>Observations on a run, and surroundings to run in\<close>

text \<open>The events that a run added to the trace of the world it started from.\<close>

definition new_events :: "world \<Rightarrow> world \<Rightarrow> event list" where
  "new_events w w' = drop (length (trace w)) (trace w')"

text \<open>Kinds of events that the properties below single out.\<close>

fun is_external :: "event \<Rightarrow> bool" where
  "is_external (Run argv) = True"
| "is_external (RunShell cmd) = True"
| "is_external (CheckCall argv) = True"
| "is_external e = False"

fun is_setenv :: "event \<Rightarrow> bool" where
  "is_setenv (SetEnv k v) = True"
| "is_setenv e = False"

fun is_prompt :: "event \<Rightarrow> bool" where
  "is_prompt (Input p) = True"
| "is_prompt e = False"

text \<open>What the loop of \<open>scan\<close> adds to the trace, by the first name within the distance.\<close>

definition scan_events :: "string \<Rightarrow> real \<Rightarrow> string list \<Rightarrow> string list \<Rightarrow> event list" where
  "scan_events arg r cs answers =
     (case find (\<lambda>c. real (lev arg c) \<le> r) cs of
        None \<Rightarrow> [Print []]
      | Some c \<Rightarrow> PrintStyle (offer_msg c) # Input [] # (if answers = [] then [] else [Print []]))"

text \<open>The events of a configuration attempt in which every step went through.\<close>

definition attempt_events :: "string \<times> string \<Rightarrow> event list" where
  "attempt_events cm =
     [SetEnv ''CC'' (fst cm), SetEnv ''CXX'' (snd cm), PrintStyle ''Trying to configure project ...'',
      CheckCall conan_install_command, Run conan_install_command,
      CheckCall (cmake_command cm), Run (cmake_command cm),
      PrintStyle ''Configuration successful!'']"

text \<open>A program that leaves the retry gate as it found it.\<close>

definition keeps_gate :: "'a prog \<Rightarrow> bool" where
  "keeps_gate m \<longleftrightarrow> (\<forall>w. retry_avail (snd (m w)) = retry_avail w)"

text \<open>
  The world at the start of a run: the gate is open (line 72) and nothing has happened.
  The user will type \<open>answers\<close>; \<open>sp\<close> and \<open>mk\<close> say how external programs and
  \<^verbatim>\<open>mkdir\<close> will behave.
\<close>

definition start ::
  "string list \<Rightarrow> (event list \<Rightarrow> string list \<Rightarrow> outcome) \<Rightarrow> (event list \<Rightarrow> string \<Rightarrow> bool) \<Rightarrow> world"
where
  "start answers sp mk =
     \<lparr>retry_avail = True, environ = Map.empty, stdin = answers, trace = [],
      spawn = sp, mkdir_ok = mk\<rparr>"

text \<open>Surroundings in which every program starts and exits with 0.\<close>

definition all_succeed :: "event list \<Rightarrow> string list \<Rightarrow> outcome" where
  "all_succeed tr argv = Exited 0"

text \<open>Surroundings in which \<^verbatim>\<open>cmake\<close> exits with 1 and every other program with 0.\<close>

definition cmake_fails :: "event list \<Rightarrow> string list \<Rightarrow> outcome" where
  "cmake_fails tr argv = (if take 1 argv = [''cmake''] then Exited 1 else Exited 0)"

text \<open>Surroundings without \<^verbatim>\<open>gcc-11\<close>: \<^verbatim>\<open>cmake\<close> exits with 1 when asked to use it.\<close>

definition no_gcc11 :: "event list \<Rightarrow> string list \<Rightarrow> outcome" where
  "no_gcc11 tr argv =
     (if ''-DCMAKE_C_COMPILER=gcc-11'' \<in> set argv then Exited 1 else Exited 0)"

definition dir_is_new :: "event list \<Rightarrow> string \<Rightarrow> bool" where
  "dir_is_new tr path = True"

text \<open>Surroundings in which every program starts and exits with 3.\<close>

definition all_exit_3 :: "event list \<Rightarrow> string list \<Rightarrow> outcome" where
  "all_exit_3 tr argv = Exited 3"

text \<open>The world after a first attempt, in which the user declined \<^verbatim>\<open>test\<close>.\<close>

definition after_attempt :: world where
  "after_attempt = snd (autocomplete ''tint'' (start [''n'', ''y''] all_succeed dir_is_new))"

section \<open>Termination of the dispatcher\<close>

text \<open>
  The recursion of line 218 ends because of the retry gate: a name comes back from the
  fuzzy matcher only when the gate was open, and the gate is closed afterwards.
\<close>

lemma scan_retry_avail: "retry_avail (snd (scan arg r cs w)) = retry_avail w"
  by (induction cs)
     (auto simp: seq_def bnd_def ret_def print_def print_style_def input_def emit_def Let_def
           split: list.splits)

lemma autocomplete_closes_gate: "\<not> retry_avail (snd (autocomplete arg w))"
  by (simp add: autocomplete_def Let_def scan_retry_avail)

lemma autocomplete_PyStr_open:
  "autocomplete arg w = (Ret (PyStr s), w') \<Longrightarrow> retry_avail w"
  by (auto simp: autocomplete_def split: if_splits)

lemma fuzzy_path_gate:
  assumes "seq usage (seq (print nl) (autocomplete cmd)) w = (Ret (PyStr s), w')"
  shows "retry_avail w \<and> \<not> retry_avail w'"
proof -
  let ?w1 = "emit (Print nl) (snd (usage w))"
  from assms have a: "autocomplete cmd ?w1 = (Ret (PyStr s), w')"
    by (simp add: seq_def bnd_def usage_def print_def)
  have "retry_avail ?w1 = retry_avail w"
    by (simp add: usage_def print_def emit_def)
  with autocomplete_PyStr_open [OF a] autocomplete_closes_gate [of cmd ?w1] a
  show ?thesis by simp
qed

termination parse
  apply (relation "measure (\<lambda>(cmd_line, cmd, cmd_args, cmd_argc, w). if retry_avail w then 1 else 0)")
   apply simp
  apply (auto dest!: fuzzy_path_gate [OF sym])
  done

declare parse.simps [simp del]

section \<open>Properties of the fuzzy matcher\<close>

lemma offer_msg_inj: "offer_msg a = offer_msg b \<longleftrightarrow> a = b"
  by (simp add: offer_msg_def)

lemma find_Some_split:
  "find P xs = Some x \<longleftrightarrow> (\<exists>before after. xs = before @ x # after \<and> P x \<and> (\<forall>b\<in>set before. \<not> P b))"
proof (induction xs)
  case Nil
  then show ?case by simp
next
  case (Cons y ys)
  show ?case
  proof (cases "P y")
    case True
    then show ?thesis
      by (auto simp: Cons_eq_append_conv intro: exI [of _ "[]"])
  next
    case False
    have "(\<exists>before after. y # ys = before @ x # after \<and> P x \<and> (\<forall>b\<in>set before. \<not> P b))
          \<longleftrightarrow> (\<exists>before after. ys = before @ x # after \<and> P x \<and> (\<forall>b\<in>set before. \<not> P b))"
      (is "?L \<longleftrightarrow> ?R")
    proof
      assume ?L
      then obtain before after where h: "y # ys = before @ x # after" "P x" "\<forall>b\<in>set before. \<not> P b"
        by blast
      with False obtain bs where "before = y # bs" by (cases before) auto
      with h show ?R by auto
    next
      assume ?R
      then obtain before after where h: "ys = before @ x # after" "P x" "\<forall>b\<in>set before. \<not> P b"
        by blast
      with False have "y # ys = (y # before) @ x # after \<and> P x \<and> (\<forall>b\<in>set (y # before). \<not> P b)"
        by simp
      then show ?L by blast
    qed
    with False Cons.IH show ?thesis by simp
  qed
qed

lemma scan_trace:
  "trace (snd (scan arg r cs w)) = trace w @ scan_events arg r cs (stdin w)"
  by (induction cs)
     (auto simp: scan_events_def seq_def bnd_def ret_def print_def print_style_def input_def
                 emit_def Let_def split: list.splits)

lemma scan_result:
  "fst (scan arg r cs w) =
     (case find (\<lambda>c. real (lev arg c) \<le> r) cs of
        None \<Rightarrow> Ret PyNone
      | Some c \<Rightarrow>
          (case stdin w of [] \<Rightarrow> Raise EOFError
           | answer # rest \<Rightarrow> if lower answer = ''y'' then Ret (PyStr c) else Ret PyNone))"
  by (induction cs)
     (auto simp: seq_def bnd_def ret_def print_def print_style_def input_def
                 emit_def Let_def split: list.splits)

lemma autocomplete_new_events:
  "retry_avail w \<Longrightarrow>
   new_events w (snd (autocomplete arg w)) =
     scan_events arg (0.5 * real (length arg)) (map field AvailableParams) (stdin w)"
  by (simp add: autocomplete_def new_events_def Let_def scan_trace)

lemma registry_names:
  "map field AvailableParams = [''build'', ''test'', ''lint'', ''doc'', ''clean'']"
  by (simp add: AvailableParams_def Param_def)

lemma find_Some_mem: "find P xs = Some x \<Longrightarrow> x \<in> set xs"
  by (induction xs) (auto split: if_splits)

lemma autocomplete_result:
  "fst (autocomplete arg w) =
     (if \<not> retry_avail w then Ret PyFalse
      else case find (\<lambda>c. real (lev arg c) \<le> 0.5 * real (length arg)) (map field AvailableParams) of
             None \<Rightarrow> Ret PyNone
           | Some c \<Rightarrow>
               (case stdin w of [] \<Rightarrow> Raise EOFError
                | answer # rest \<Rightarrow> if lower answer = ''y'' then Ret (PyStr c) else Ret PyNone))"
  by (simp add: autocomplete_def Let_def scan_result split: option.splits)

lemma within_iff: "real l \<le> 0.5 * real n \<longleftrightarrow> 2 * l \<le> n"
  by auto

lemma own_name_first:
  "find (\<lambda>c. 2 * lev ''build'' c \<le> length ''build'') [''build'', ''test'', ''lint'', ''doc'', ''clean''] = Some ''build''"
  "find (\<lambda>c. 2 * lev ''test'' c \<le> length ''test'') [''build'', ''test'', ''lint'', ''doc'', ''clean''] = Some ''test''"
  "find (\<lambda>c. 2 * lev ''lint'' c \<le> length ''lint'') [''build'', ''test'', ''lint'', ''doc'', ''clean''] = Some ''lint''"
  "find (\<lambda>c. 2 * lev ''doc'' c \<le> length ''doc'') [''build'', ''test'', ''lint'', ''doc'', ''clean''] = Some ''doc''"
  "find (\<lambda>c. 2 * lev ''clean'' c \<le> length ''clean'') [''build'', ''test'', ''lint'', ''doc'', ''clean''] = Some ''clean''"
  by simp_all

lemma own_name_suggested:
  assumes "c \<in> {''build'', ''test'', ''lint'', ''doc'', ''clean''}"
  shows "fst (autocomplete c (start [''y''] sp mk)) = Ret (PyStr c)"
proof -
  have l: "lower ''y'' = ''y''" by (simp add: lower_def lower_char_def)
  have s: "retry_avail (start [''y''] sp mk)" "stdin (start [''y''] sp mk) = [''y'']"
    by (simp_all add: start_def)
  from assms consider "c = ''build''" | "c = ''test''" | "c = ''lint''" | "c = ''doc''" | "c = ''clean''"
    by (simp only: insert_iff empty_iff) blast
  then show ?thesis
    by cases (simp_all only: autocomplete_result registry_names within_iff own_name_first s l
                             not_True_eq_False if_False option.case list.case if_True,
                 simp_all)
qed

lemma autocomplete_returns_registry_name:
  assumes "fst (autocomplete arg w) = Ret (PyStr s)"
  shows "s \<in> set (map field AvailableParams)"
proof -
  let ?P = "\<lambda>c. real (lev arg c) \<le> 0.5 * real (length arg)"
  from assms have "find ?P (map field AvailableParams) = Some s"
    unfolding autocomplete_result
    by (auto split: if_splits option.splits list.splits)
  then show ?thesis by (rule find_Some_mem)
qed

lemma autocomplete_offers_registry_name:
  assumes "PrintStyle (offer_msg s) \<in> set (new_events w (snd (autocomplete arg w)))"
  shows "s \<in> set (map field AvailableParams)"
proof (cases "retry_avail w")
  case True
  let ?P = "\<lambda>c. real (lev arg c) \<le> 0.5 * real (length arg)"
  from assms have "find ?P (map field AvailableParams) = Some s"
    unfolding autocomplete_new_events [OF True] scan_events_def
    by (auto simp: offer_msg_inj split: option.splits if_splits)
  then show ?thesis by (rule find_Some_mem)
next
  case False
  then have "new_events w (snd (autocomplete arg w)) = []"
    by (simp add: autocomplete_def new_events_def)
  with assms show ?thesis by simp
qed

text \<open>What the dispatcher does with a command it does not know (lines 214 to 218).\<close>

lemma parse_unknown:
  assumes "cmd_argc \<le> 1"
    and "cmd \<notin> {''build'', ''config'', ''test'', ''clean'', ''mrproper'', ''lint'', ''doc'', ''version''}"
  shows "parse cmd_line cmd cmd_args cmd_argc w =
           (case autocomplete cmd (emit (Print [CHR 0x0A]) (snd (usage w))) of
              (Ret (PyStr name), w') \<Rightarrow> parse cmd_line name cmd_args cmd_argc w'
            | (Ret other, w') \<Rightarrow> (Ret (), w')
            | (Raise e, w') \<Rightarrow> (Raise e, w'))"
proof -
  let ?w1 = "emit (Print [CHR 0x0A]) (snd (usage w))"
  have s: "seq usage (seq (print [CHR 0x0A]) (autocomplete cmd)) w = autocomplete cmd ?w1"
    by (simp add: seq_def bnd_def usage_def print_def)
  obtain r w' where a: "autocomplete cmd ?w1 = (r, w')" by (cases "autocomplete cmd ?w1")
  have n: "name \<noteq> []" if "r = Ret (PyStr name)" for name
  proof -
    from a that have "fst (autocomplete cmd ?w1) = Ret (PyStr name)" by simp
    then have "name \<in> set (map field AvailableParams)"
      by (rule autocomplete_returns_registry_name)
    then show ?thesis by (auto simp: registry_names)
  qed
  show ?thesis
    using assms n
    by (auto simp add: parse.simps [of cmd_line cmd cmd_args cmd_argc w] s a
             split: result.splits pyval.splits)
qed

text \<open>
  C1. While the retry gate is open, the fuzzy matcher offers exactly the first name of the
  registry, in registry order, whose Levenshtein distance to the token is at most
  \<open>0.5 * length token\<close>: the events it adds to the trace are the offer of that name, the
  question to the user and the closing empty line, or the empty line alone when no name is
  within the distance. So a name \<open>c\<close> is offered if and only if it stands in the registry,
  is within the distance (a distance equal to the threshold counts), and no name before it
  is; no second name is offered, whatever the user answers. The dispatcher hands a token
  that it does not recognise (with at most one sub-argument) to the matcher after the
  usage block, and in a run that began with the gate open the gate is open there.
\<close>

theorem fuzzy_match_offers_first_within_threshold:
  assumes "retry_avail w"
  shows "new_events w (snd (autocomplete arg w)) =
           (case find (\<lambda>c. real (lev arg c) \<le> 0.5 * real (length arg)) (map field AvailableParams) of
              None \<Rightarrow> [Print []]
            | Some c \<Rightarrow> PrintStyle (offer_msg c) # Input [] # (if stdin w = [] then [] else [Print []]))
         \<and> (PrintStyle (offer_msg c) \<in> set (new_events w (snd (autocomplete arg w))) \<longleftrightarrow>
              (\<exists>before after. map field AvailableParams = before @ c # after
                 \<and> real (lev arg c) \<le> 0.5 * real (length arg)
                 \<and> (\<forall>b \<in> set before. \<not> real (lev arg b) \<le> 0.5 * real (length arg))))
         \<and> (cmd_argc \<le> 1
              \<and> arg \<notin> {''build'', ''config'', ''test'', ''clean'', ''mrproper'', ''lint'', ''doc'', ''version''}
             \<longrightarrow> retry_avail (emit (Print [CHR 0x0A]) (snd (usage w)))
               \<and> parse cmd_line arg cmd_args cmd_argc w =
                   (case autocomplete arg (emit (Print [CHR 0x0A]) (snd (usage w))) of
                      (Ret (PyStr name), w') \<Rightarrow> parse cmd_line name cmd_args cmd_argc w'
                    | (Ret other, w') \<Rightarrow> (Ret (), w')
                    | (Raise e, w') \<Rightarrow> (Raise e, w')))"
proof -
  let ?P = "\<lambda>c. real (lev arg c) \<le> 0.5 * real (length arg)"
  let ?ev = "new_events w (snd (autocomplete arg w))"
  have ev: "?ev = scan_events arg (0.5 * real (length arg)) (map field AvailableParams) (stdin w)"
    using assms by (rule autocomplete_new_events)
  have A: "?ev =
            (case find ?P (map field AvailableParams) of
               None \<Rightarrow> [Print []]
             | Some c \<Rightarrow> PrintStyle (offer_msg c) # Input [] # (if stdin w = [] then [] else [Print []]))"
    unfolding ev scan_events_def ..
  have B: "PrintStyle (offer_msg c) \<in> set ?ev \<longleftrightarrow> find ?P (map field AvailableParams) = Some c"
    unfolding A by (auto simp only: offer_msg_inj list.set event.inject event.distinct
                         split: option.splits if_splits)
  have C: "find ?P (map field AvailableParams) = Some c \<longleftrightarrow>
             (\<exists>before after. map field AvailableParams = before @ c # after \<and> ?P c
                \<and> (\<forall>b \<in> set before. \<not> ?P b))"
    by (rule find_Some_split)
  from B C have D: "PrintStyle (offer_msg c) \<in> set ?ev \<longleftrightarrow>
             (\<exists>before after. map field AvailableParams = before @ c # after \<and> ?P c
                \<and> (\<forall>b \<in> set before. \<not> ?P b))"
    by (rule trans)
  have E: "cmd_argc \<le> 1
              \<and> arg \<notin> {''build'', ''config'', ''test'', ''clean'', ''mrproper'', ''lint'', ''doc'', ''version''}
             \<longrightarrow> retry_avail (emit (Print [CHR 0x0A]) (snd (usage w)))
               \<and> parse cmd_line arg cmd_args cmd_argc w =
                   (case autocomplete arg (emit (Print [CHR 0x0A]) (snd (usage w))) of
                      (Ret (PyStr name), w') \<Rightarrow> parse cmd_line name cmd_args cmd_argc w'
                    | (Ret other, w') \<Rightarrow> (Ret (), w')
                    | (Raise e, w') \<Rightarrow> (Raise e, w'))"
  proof (intro impI conjI)
    show "retry_avail (emit (Print [CHR 0x0A]) (snd (usage w)))"
      using assms by (simp add: usage_def print_def emit_def)
    assume h: "cmd_argc \<le> 1
              \<and> arg \<notin> {''build'', ''config'', ''test'', ''clean'', ''mrproper'', ''lint'', ''doc'', ''version''}"
    show "parse cmd_line arg cmd_args cmd_argc w =
                   (case autocomplete arg (emit (Print [CHR 0x0A]) (snd (usage w))) of
                      (Ret (PyStr name), w') \<Rightarrow> parse cmd_line name cmd_args cmd_argc w'
                    | (Ret other, w') \<Rightarrow> (Ret (), w')
                    | (Raise e, w') \<Rightarrow> (Raise e, w'))"
      by (rule parse_unknown [OF h [THEN conjunct1] h [THEN conjunct2]])
  qed
  from A D E show ?thesis by (intro conjI)
qed

text \<open>
  The token \<^verbatim>\<open>tint\<close>: \<^verbatim>\<open>test\<close> is at distance 2, which is the threshold, and is
  offered; \<^verbatim>\<open>lint\<close> is closer and comes later in the registry. The dispatcher goes on
  with \<^verbatim>\<open>test\<close> when the user agrees.
\<close>

theorem fuzzy_match_offers_first_within_threshold_witness:
  "retry_avail (start [''y''] all_succeed dir_is_new)
   \<and> new_events (start [''y''] all_succeed dir_is_new)
        (snd (autocomplete ''tint'' (start [''y''] all_succeed dir_is_new)))
      = [PrintStyle (offer_msg ''test''), Input [], Print []]
   \<and> real (lev ''tint'' ''test'') = 0.5 * real (length ''tint'')
   \<and> lev ''tint'' ''lint'' < lev ''tint'' ''test''
   \<and> parse [''tint''] ''tint'' [] 0 (start [''y''] all_succeed dir_is_new)
      = parse [''tint''] ''test'' [] 0
          (snd (autocomplete ''tint''
                  (emit (Print [CHR 0x0A]) (snd (usage (start [''y''] all_succeed dir_is_new))))))"
proof -
  let ?w = "start [''y''] all_succeed dir_is_new"
  let ?w1 = "emit (Print [CHR 0x0A]) (snd (usage ?w))"
  note T = fuzzy_match_offers_first_within_threshold
             [of ?w "''tint''" "''test''" 0 "[''tint'']" "[]"]
  have g: "retry_avail ?w" by (simp add: start_def)
  from T [OF g, THEN conjunct1]
  have a: "new_events ?w (snd (autocomplete ''tint'' ?w))
             = [PrintStyle (offer_msg ''test''), Input [], Print []]"
    by (simp add: start_def AvailableParams_def Param_def)
  have b: "real (lev ''tint'' ''test'') = 0.5 * real (length ''tint'')" by simp
  have c: "lev ''tint'' ''lint'' < lev ''tint'' ''test''" by simp
  have l: "lower ''y'' = ''y''" by (simp add: lower_def lower_char_def)
  have "fst (autocomplete ''tint'' ?w1) = Ret (PyStr ''test'')"
    unfolding autocomplete_result registry_names within_iff
    by (simp add: start_def usage_def print_def emit_def l)
  then have r: "autocomplete ''tint'' ?w1 = (Ret (PyStr ''test''), snd (autocomplete ''tint'' ?w1))"
    by (simp add: prod_eq_iff)
  from T [OF g, THEN conjunct2, THEN conjunct2]
  have "parse [''tint''] ''tint'' [] 0 ?w =
          (case autocomplete ''tint'' ?w1 of
             (Ret (PyStr name), w') \<Rightarrow> parse [''tint''] name [] 0 w'
           | (Ret other, w') \<Rightarrow> (Ret (), w')
           | (Raise e, w') \<Rightarrow> (Raise e, w'))"
    by simp
  also have "\<dots> = parse [''tint''] ''test'' [] 0 (snd (autocomplete ''tint'' ?w1))"
    by (subst r) simp
  finally have d: "parse [''tint''] ''tint'' [] 0 ?w
                   = parse [''tint''] ''test'' [] 0 (snd (autocomplete ''tint'' ?w1))" .
  from g a b c d show ?thesis by (intro conjI)
qed

text \<open>
  C8. Whatever the token and the world, a name that the fuzzy matcher returns, and a name
  that it offers, is one of \<^verbatim>\<open>build\<close>, \<^verbatim>\<open>test\<close>, \<^verbatim>\<open>lint\<close>, \<^verbatim>\<open>doc\<close> and
  \<^verbatim>\<open>clean\<close>; each of the five can be returned (it is, for itself as the token, when the
  user agrees). These five are the registry; \<^verbatim>\<open>config\<close>, \<^verbatim>\<open>mrproper\<close> and
  \<^verbatim>\<open>version\<close>, which the dispatcher knows, are not in it and so are never suggested.
\<close>

theorem suggestions_come_from_registry:
  "(fst (autocomplete arg w) = Ret (PyStr s) \<longrightarrow> s \<in> {''build'', ''test'', ''lint'', ''doc'', ''clean''})
   \<and> (PrintStyle (offer_msg s) \<in> set (new_events w (snd (autocomplete arg w)))
        \<longrightarrow> s \<in> {''build'', ''test'', ''lint'', ''doc'', ''clean''})
   \<and> (\<forall>c \<in> {''build'', ''test'', ''lint'', ''doc'', ''clean''}.
         fst (autocomplete c (start [''y''] sp mk)) = Ret (PyStr c))
   \<and> map field AvailableParams = [''build'', ''test'', ''lint'', ''doc'', ''clean'']
   \<and> ''config'' \<notin> set (map field AvailableParams)
   \<and> ''mrproper'' \<notin> set (map field AvailableParams)
   \<and> ''version'' \<notin> set (map field AvailableParams)"
proof (intro conjI impI ballI)
  show "s \<in> {''build'', ''test'', ''lint'', ''doc'', ''clean''}"
    if "fst (autocomplete arg w) = Ret (PyStr s)"
    using autocomplete_returns_registry_name [OF that] by (simp add: registry_names)
  show "s \<in> {''build'', ''test'', ''lint'', ''doc'', ''clean''}"
    if "PrintStyle (offer_msg s) \<in> set (new_events w (snd (autocomplete arg w)))"
    using autocomplete_offers_registry_name [OF that] by (simp add: registry_names)
  show "fst (autocomplete c (start [''y''] sp mk)) = Ret (PyStr c)"
    if "c \<in> {''build'', ''test'', ''lint'', ''doc'', ''clean''}" for c
    using that by (rule own_name_suggested)
  show "map field AvailableParams = [''build'', ''test'', ''lint'', ''doc'', ''clean'']"
    by (rule registry_names)
qed (simp_all add: registry_names)

text \<open>
  The token \<^verbatim>\<open>tint\<close> is answered with \<^verbatim>\<open>test\<close>; the token \<^verbatim>\<open>confi\<close>, one letter
  short of \<^verbatim>\<open>config\<close>, gets no suggestion.
\<close>

theorem suggestions_come_from_registry_witness:
  "fst (autocomplete ''tint'' (start [''Y''] all_succeed dir_is_new)) = Ret (PyStr ''test'')
   \<and> ''test'' \<in> {''build'', ''test'', ''lint'', ''doc'', ''clean''}
   \<and> fst (autocomplete ''doc'' (start [''y''] all_succeed dir_is_new)) = Ret (PyStr ''doc'')
   \<and> fst (autocomplete ''confi'' (start [''y''] all_succeed dir_is_new)) = Ret PyNone"
proof -
  note T = suggestions_come_from_registry
             [of "''tint''" "start [''Y''] all_succeed dir_is_new" "''test''" all_succeed dir_is_new]
  have l: "lower ''Y'' = ''y''" "lower ''y'' = ''y''"
    by (simp_all add: lower_def lower_char_def)
  have a: "fst (autocomplete ''tint'' (start [''Y''] all_succeed dir_is_new)) = Ret (PyStr ''test'')"
    unfolding autocomplete_result registry_names within_iff by (simp add: start_def l)
  have b: "fst (autocomplete ''confi'' (start [''y''] all_succeed dir_is_new)) = Ret PyNone"
    unfolding autocomplete_result registry_names within_iff by (simp add: start_def l)
  from T have "fst (autocomplete ''tint'' (start [''Y''] all_succeed dir_is_new)) = Ret (PyStr ''test'')
                 \<longrightarrow> ''test'' \<in> {''build'', ''test'', ''lint'', ''doc'', ''clean''}"
    by (rule conjunct1)
  from this a have m: "''test'' \<in> {''build'', ''test'', ''lint'', ''doc'', ''clean''}"
    by (rule mp)
  from T have "\<forall>c \<in> {''build'', ''test'', ''lint'', ''doc'', ''clean''}.
                 fst (autocomplete c (start [''y''] all_succeed dir_is_new)) = Ret (PyStr c)"
    by (rule conjunct2 [THEN conjunct2, THEN conjunct1])
  then have d: "fst (autocomplete ''doc'' (start [''y''] all_succeed dir_is_new)) = Ret (PyStr ''doc'')"
    by (rule bspec) simp
  from a m d b show ?thesis by (intro conjI)
qed

section \<open>Properties of the process runner\<close>

lemma lower_char_y: "lower_char c = CHR ''y'' \<longleftrightarrow> c = CHR ''y'' \<or> c = CHR ''Y''"
  by (auto simp add: lower_char_def split: if_splits)

lemma lower_y: "lower s = ''y'' \<longleftrightarrow> s = ''y'' \<or> s = ''Y''"
  by (cases s) (auto simp: lower_def lower_char_y)

lemma lower_empty: "lower s = [] \<longleftrightarrow> s = []"
  by (simp add: lower_def)

lemma confirms_iff: "\<not> (lower s \<noteq> [] \<and> lower s \<noteq> ''y'') \<longleftrightarrow> s \<in> {[], ''y'', ''Y''}"
  by (auto simp: lower_y lower_empty)

lemma new_events_emit [simp]:
  "new_events w (emit e w) = [e]"
  by (simp add: new_events_def emit_def)

lemma do_if_no_prompt_events:
  "new_events w (snd (do_if cmd msg False w)) = [Run (split_ws cmd)]"
  by (simp add: do_if_def sp_run_def split: outcome.splits)

lemma do_if_prompt:
  assumes "stdin w = answer # rest"
  shows "do_if cmd msg True w =
           (if answer \<in> {[], ''y'', ''Y''}
            then sp_run (split_ws cmd) (emit (Input (msg @ '' Ok? '')) (w\<lparr>stdin := rest\<rparr>))
            else (Ret (), emit (Input (msg @ '' Ok? '')) (w\<lparr>stdin := rest\<rparr>)))"
proof (cases "answer \<in> {[], ''y'', ''Y''}")
  case True
  with confirms_iff [of answer] have "\<not> (lower answer \<noteq> [] \<and> lower answer \<noteq> ''y'')"
    by (simp only:)
  with assms True show ?thesis
    by (auto simp add: do_if_def bnd_def input_def ret_def Let_def simp del: insert_iff)
next
  case False
  with confirms_iff [of answer] have "lower answer \<noteq> [] \<and> lower answer \<noteq> ''y''"
    by (simp only:) blast
  with assms False show ?thesis
    by (auto simp add: do_if_def bnd_def input_def ret_def Let_def simp del: insert_iff)
qed

text \<open>
  C7. The optional runner \<^verbatim>\<open>do_if\<close>. Without a question it always runs the command.
  With the question, and an answer on the console, it asks and then runs the command if
  and only if the answer is empty, \<^verbatim>\<open>y\<close> or \<^verbatim>\<open>Y\<close>; with no answer left the
  \<^verbatim>\<open>EOFError\<close> of \<^verbatim>\<open>input\<close> leaves it before the command. Whenever the command could
  be started, \<^verbatim>\<open>do_if\<close> returns normally and the world it leaves is the same for every
  exit status \<open>n\<close>: the status is neither looked at nor handed on.
\<close>

theorem do_if_runs_unless_declined:
  "new_events w (snd (do_if cmd msg False w)) = [Run (split_ws cmd)]
   \<and> (stdin w = answer # rest \<longrightarrow>
        new_events w (snd (do_if cmd msg True w)) =
          Input (msg @ '' Ok? '') # (if answer \<in> {[], ''y'', ''Y''} then [Run (split_ws cmd)] else []))
   \<and> (stdin w = [] \<longrightarrow> do_if cmd msg True w = (Raise EOFError, emit (Input (msg @ '' Ok? '')) w))
   \<and> (spawn w (trace w) (split_ws cmd) = Exited n \<longrightarrow>
        do_if cmd msg False w = (Ret (), emit (Run (split_ws cmd)) w))
   \<and> (stdin w = answer # rest
        \<and> spawn w (trace w @ [Input (msg @ '' Ok? '')]) (split_ws cmd) = Exited n \<longrightarrow>
        do_if cmd msg True w =
          (Ret (), if answer \<in> {[], ''y'', ''Y''}
                   then emit (Run (split_ws cmd)) (emit (Input (msg @ '' Ok? '')) (w\<lparr>stdin := rest\<rparr>))
                   else emit (Input (msg @ '' Ok? '')) (w\<lparr>stdin := rest\<rparr>)))"
proof (intro conjI impI)
  show "new_events w (snd (do_if cmd msg False w)) = [Run (split_ws cmd)]"
    by (rule do_if_no_prompt_events)
  show "new_events w (snd (do_if cmd msg True w)) =
          Input (msg @ '' Ok? '') # (if answer \<in> {[], ''y'', ''Y''} then [Run (split_ws cmd)] else [])"
    if "stdin w = answer # rest"
    unfolding do_if_prompt [OF that]
    by (simp add: sp_run_def new_events_def emit_def del: insert_iff split: outcome.splits)
  show "do_if cmd msg True w = (Raise EOFError, emit (Input (msg @ '' Ok? '')) w)"
    if "stdin w = []"
    using that by (simp add: do_if_def bnd_def input_def)
  show "do_if cmd msg False w = (Ret (), emit (Run (split_ws cmd)) w)"
    if "spawn w (trace w) (split_ws cmd) = Exited n"
    using that by (simp add: do_if_def sp_run_def)
  show "do_if cmd msg True w =
          (Ret (), if answer \<in> {[], ''y'', ''Y''}
                   then emit (Run (split_ws cmd)) (emit (Input (msg @ '' Ok? '')) (w\<lparr>stdin := rest\<rparr>))
                   else emit (Input (msg @ '' Ok? '')) (w\<lparr>stdin := rest\<rparr>))"
    if h: "stdin w = answer # rest
           \<and> spawn w (trace w @ [Input (msg @ '' Ok? '')]) (split_ws cmd) = Exited n"
  proof -
    from h have a: "stdin w = answer # rest" by (rule conjunct1)
    from h have b: "spawn w (trace w @ [Input (msg @ '' Ok? '')]) (split_ws cmd) = Exited n"
      by (rule conjunct2)
    show ?thesis
      unfolding do_if_prompt [OF a] using b
      by (simp add: sp_run_def emit_def del: insert_iff)
  qed
qed

text \<open>
  The command exits with 3: after the answer \<^verbatim>\<open>Y\<close> it is run and \<^verbatim>\<open>do_if\<close> returns
  normally; after the answer \<^verbatim>\<open>no\<close> only the question is in the trace.
\<close>

theorem do_if_runs_unless_declined_witness:
  "stdin (start [''Y''] all_exit_3 dir_is_new) = ''Y'' # []
   \<and> spawn (start [''Y''] all_exit_3 dir_is_new)
         (trace (start [''Y''] all_exit_3 dir_is_new) @ [Input (''Removing build logs'' @ '' Ok? '')])
         (split_ws ''rm -f build.log'') = Exited 3
   \<and> do_if ''rm -f build.log'' ''Removing build logs'' True (start [''Y''] all_exit_3 dir_is_new)
       = (Ret (), (start [] all_exit_3 dir_is_new)
            \<lparr>trace := [Input ''Removing build logs Ok? '', Run [''rm'', ''-f'', ''build.log'']]\<rparr>)
   \<and> new_events (start [''no''] all_exit_3 dir_is_new)
        (snd (do_if ''rm -f build.log'' ''Removing build logs'' True (start [''no''] all_exit_3 dir_is_new)))
       = [Input ''Removing build logs Ok? '']"
proof -
  let ?w = "start [''Y''] all_exit_3 dir_is_new"
  let ?v = "start [''no''] all_exit_3 dir_is_new"
  have a: "stdin ?w = ''Y'' # []" by (simp add: start_def)
  have b: "spawn ?w (trace ?w @ [Input (''Removing build logs'' @ '' Ok? '')])
             (split_ws ''rm -f build.log'') = Exited 3"
    by (simp add: start_def all_exit_3_def)
  have c: "stdin ?v = ''no'' # []" by (simp add: start_def)
  have sp: "split_ws ''rm -f build.log'' = [''rm'', ''-f'', ''build.log'']"
    by (simp add: split_ws_def is_space_def)
  from do_if_runs_unless_declined
         [of ?w "''rm -f build.log''" "''Removing build logs''" "''Y''" "[]" 3] a b
  have "do_if ''rm -f build.log'' ''Removing build logs'' True ?w =
          (Ret (), emit (Run (split_ws ''rm -f build.log''))
                     (emit (Input (''Removing build logs'' @ '' Ok? '')) (?w\<lparr>stdin := []\<rparr>)))"
    by simp
  then have d: "do_if ''rm -f build.log'' ''Removing build logs'' True ?w
       = (Ret (), (start [] all_exit_3 dir_is_new)
            \<lparr>trace := [Input ''Removing build logs Ok? '', Run [''rm'', ''-f'', ''build.log'']]\<rparr>)"
    by (simp add: sp emit_def start_def)
  from do_if_runs_unless_declined
         [of ?v "''rm -f build.log''" "''Removing build logs''" "''no''" "[]" 3] c
  have e: "new_events ?v (snd (do_if ''rm -f build.log'' ''Removing build logs'' True ?v))
       = [Input ''Removing build logs Ok? '']"
    by simp
  from a b d e show ?thesis by (intro conjI)
qed

section \<open>Properties of the configuration workflow\<close>

lemma config_steps_shape:
  "case config_steps cm w of
     (r, w') \<Rightarrow>
       w' = w\<lparr>trace := trace w @ new_events w w'\<rparr>
       \<and> filter is_setenv (new_events w w') = []
       \<and> (case r of
            Ret u \<Rightarrow> new_events w w' =
                       [CheckCall conan_install_command, Run conan_install_command,
                        CheckCall (cmake_command cm), Run (cmake_command cm),
                        PrintStyle ''Configuration successful!'']
          | Raise e \<Rightarrow> True)"
  by (auto simp: config_steps_def seq_def bnd_def sp_check_call_def sp_run_def print_style_def
                 emit_def new_events_def
           split: outcome.splits)

lemma do_config_cmd_shape:
  "case do_config_cmd cm w of
     (r, w') \<Rightarrow>
       w' = w\<lparr>environ := (environ w)(''CC'' \<mapsto> fst cm, ''CXX'' \<mapsto> snd cm),
                trace := trace w @ new_events w w'\<rparr>
       \<and> trace w' = trace w @ new_events w w'
       \<and> filter is_setenv (new_events w w') = [SetEnv ''CC'' (fst cm), SetEnv ''CXX'' (snd cm)]
       \<and> (r = Ret True \<or> r = Ret False)
       \<and> (r = Ret True \<longrightarrow> new_events w w' = attempt_events cm)"
proof -
  let ?w0 = "emit (PrintStyle ''Trying to configure project ...'')
              (emit (SetEnv ''CXX'' (snd cm))
                ((emit (SetEnv ''CC'' (fst cm)) (w\<lparr>environ := (environ w)(''CC'' \<mapsto> fst cm)\<rparr>))
                  \<lparr>environ := (environ w)(''CC'' \<mapsto> fst cm, ''CXX'' \<mapsto> snd cm)\<rparr>))"
  obtain r w1 where c: "config_steps cm ?w0 = (r, w1)" by (cases "config_steps cm ?w0")
  define steps where "steps = new_events ?w0 w1"
  from config_steps_shape [where cm = cm and w = ?w0] c
  have s: "w1 = ?w0\<lparr>trace := trace ?w0 @ steps\<rparr>"
    and f: "filter is_setenv steps = []"
    and k: "case r of Ret u \<Rightarrow> steps =
                       [CheckCall conan_install_command, Run conan_install_command,
                        CheckCall (cmake_command cm), Run (cmake_command cm),
                        PrintStyle ''Configuration successful!'']
            | Raise e \<Rightarrow> True"
    unfolding steps_def by simp_all
  have d: "do_config_cmd cm w =
             (case r of Ret u \<Rightarrow> (Ret True, w1)
              | Raise e \<Rightarrow> (Ret False, emit (PrintStyle ''Configuration failed :('') w1))"
    using c by (simp add: do_config_cmd_def seq_def bnd_def environ_set_def print_style_def ret_def
                     emit_def split: result.splits)
  show ?thesis
  proof (cases r)
    case (Ret u)
    with k have "steps = [CheckCall conan_install_command, Run conan_install_command,
                        CheckCall (cmake_command cm), Run (cmake_command cm),
                        PrintStyle ''Configuration successful!'']" by simp
    with d Ret show ?thesis
      unfolding s by (simp add: emit_def new_events_def attempt_events_def)
  next
    case (Raise e)
    with d f show ?thesis
      unfolding s by (simp add: emit_def new_events_def)
  qed
qed

text \<open>
  C10. A configuration attempt that succeeds (\<^verbatim>\<open>do_config_cmd\<close> returns \<^verbatim>\<open>True\<close>) has
  started four external programs, in this order: the dependency installer by the checked
  call, the dependency installer again by the unchecked call, the build-file generator by
  the checked call, and the build-file generator again by the unchecked call.
\<close>

theorem successful_attempt_runs_each_command_twice:
  assumes "do_config_cmd compiler_matrix w = (Ret True, w')"
  shows "new_events w w' =
           [SetEnv ''CC'' (fst compiler_matrix), SetEnv ''CXX'' (snd compiler_matrix),
            PrintStyle ''Trying to configure project ...'',
            CheckCall conan_install_command, Run conan_install_command,
            CheckCall (cmake_command compiler_matrix), Run (cmake_command compiler_matrix),
            PrintStyle ''Configuration successful!'']
         \<and> filter is_external (new_events w w') =
           [CheckCall conan_install_command, Run conan_install_command,
            CheckCall (cmake_command compiler_matrix), Run (cmake_command compiler_matrix)]
         \<and> length (filter is_external (new_events w w')) = 4"
proof -
  from do_config_cmd_shape [where cm = compiler_matrix and w = w] assms
  have "new_events w w' = attempt_events compiler_matrix" by simp
  then show ?thesis by (simp add: attempt_events_def)
qed

text \<open>The first attempt of a run in which every program exits with 0.\<close>

theorem successful_attempt_runs_each_command_twice_witness:
  "do_config_cmd (''gcc-11'', ''g++-11'') (start [] all_succeed dir_is_new)
     = (Ret True, snd (do_config_cmd (''gcc-11'', ''g++-11'') (start [] all_succeed dir_is_new)))
   \<and> filter is_external
        (new_events (start [] all_succeed dir_is_new)
           (snd (do_config_cmd (''gcc-11'', ''g++-11'') (start [] all_succeed dir_is_new))))
      = [CheckCall [''conan'', ''install'', ''.'', ''-if'', ''build'', ''--build=missing''],
         Run [''conan'', ''install'', ''.'', ''-if'', ''build'', ''--build=missing''],
         CheckCall [''cmake'', ''-S.'', ''-Bbuild'', ''-GNinja'', ''-DCMAKE_C_COMPILER=gcc-11'',
                    ''-DCMAKE_CXX_COMPILER=g++-11''],
         Run [''cmake'', ''-S.'', ''-Bbuild'', ''-GNinja'', ''-DCMAKE_C_COMPILER=gcc-11'',
              ''-DCMAKE_CXX_COMPILER=g++-11'']]"
proof -
  let ?w = "start [] all_succeed dir_is_new"
  let ?cm = "(''gcc-11'', ''g++-11'')"
  have "fst (do_config_cmd ?cm ?w) = Ret True"
    by (simp add: do_config_cmd_def config_steps_def seq_def bnd_def environ_set_def
          print_style_def sp_check_call_def sp_run_def emit_def start_def all_succeed_def)
  then have a: "do_config_cmd ?cm ?w = (Ret True, snd (do_config_cmd ?cm ?w))"
    by (simp add: prod_eq_iff)
  have c: "conan_install_command = [''conan'', ''install'', ''.'', ''-if'', ''build'', ''--build=missing'']"
    by (simp add: conan_install_command_def split_ws_def is_space_def)
  have m: "cmake_command ?cm = [''cmake'', ''-S.'', ''-Bbuild'', ''-GNinja'', ''-DCMAKE_C_COMPILER=gcc-11'',
                    ''-DCMAKE_CXX_COMPILER=g++-11'']"
    by (simp add: cmake_command_def split_ws_def is_space_def)
  from successful_attempt_runs_each_command_twice [OF a]
  have "filter is_external (new_events ?w (snd (do_config_cmd ?cm ?w))) =
           [CheckCall conan_install_command, Run conan_install_command,
            CheckCall (cmake_command ?cm), Run (cmake_command ?cm)]"
    by (rule conjunct2 [THEN conjunct1])
  with a show ?thesis unfolding c m by (intro conjI)
qed

lemma make_build_dir_shape:
  "make_build_dir w =
     (Ret (), w\<lparr>trace := trace w @ [Mkdir ''build/'',
                  if mkdir_ok w (trace w) ''build/'' then Print ''INFO: Created 'build/' directory''
                  else PrintStyle ''INFO: 'build/' directory already exists'']\<rparr>)"
  by (simp add: make_build_dir_def seq_def bnd_def os_mkdir_def print_def print_style_def emit_def)

lemma do_config_unfold:
  assumes "do_config_cmd (''gcc-11'', ''g++-11'') (snd (make_build_dir w)) = (r1, w2)"
      and "do_config_cmd (''gcc'', ''g++'') w2 = (r2, w3)"
  shows "do_config w =
           (if r1 = Ret True then (Ret (), w2)
            else if r2 = Ret True then (Ret (), w3)
            else (Raise (SystemExit (- 1)), w3))"
proof -
  define w1 where "w1 = snd (make_build_dir w)"
  have m: "make_build_dir w = (Ret (), w1)"
    unfolding w1_def by (simp add: make_build_dir_shape)
  from assms(1) have a1: "do_config_cmd (''gcc-11'', ''g++-11'') w1 = (r1, w2)"
    unfolding w1_def .
  from do_config_cmd_shape [where cm = "(''gcc-11'', ''g++-11'')" and w = w1] a1
  have b1: "r1 = Ret True \<or> r1 = Ret False" by simp
  from do_config_cmd_shape [where cm = "(''gcc'', ''g++'')" and w = w2] assms(2)
  have b2: "r2 = Ret True \<or> r2 = Ret False" by simp
  show ?thesis
    using b1 b2 a1 assms(2) m
    by (auto simp: do_config_def seq_def bnd_def ret_def)
qed

lemma make_build_dir_trace:
  "trace (snd (make_build_dir w)) =
     trace w @ [Mkdir ''build/'',
                if mkdir_ok w (trace w) ''build/'' then Print ''INFO: Created 'build/' directory''
                else PrintStyle ''INFO: 'build/' directory already exists'']"
  by (simp add: make_build_dir_shape)

lemma do_config_success_trace:
  assumes "do_config w = (Ret (), w1)"
  shows "\<exists>before cm. cm \<in> {(''gcc-11'', ''g++-11''), (''gcc'', ''g++'')}
           \<and> trace w1 = trace w @ before @ attempt_events cm"
proof -
  obtain r1 w2 where a1: "do_config_cmd (''gcc-11'', ''g++-11'') (snd (make_build_dir w)) = (r1, w2)"
    by (cases "do_config_cmd (''gcc-11'', ''g++-11'') (snd (make_build_dir w))")
  obtain r2 w3 where a2: "do_config_cmd (''gcc'', ''g++'') w2 = (r2, w3)"
    by (cases "do_config_cmd (''gcc'', ''g++'') w2")
  note d = do_config_unfold [OF a1 a2]
  from do_config_cmd_shape [where cm = "(''gcc-11'', ''g++-11'')" and w = "snd (make_build_dir w)"] a1
  have t2: "trace w2 = trace (snd (make_build_dir w)) @ new_events (snd (make_build_dir w)) w2"
    and s1: "r1 = Ret True \<longrightarrow>
               new_events (snd (make_build_dir w)) w2 = attempt_events (''gcc-11'', ''g++-11'')"
    by simp_all
  from do_config_cmd_shape [where cm = "(''gcc'', ''g++'')" and w = w2] a2
  have t3: "trace w3 = trace w2 @ new_events w2 w3"
    and s2: "r2 = Ret True \<longrightarrow> new_events w2 w3 = attempt_events (''gcc'', ''g++'')"
    by simp_all
  show ?thesis
  proof (cases "r1 = Ret True")
    case True
    with d assms have "w1 = w2" by simp
    with t2 s1 True have "trace w1 = trace w @ [Mkdir ''build/'',
                if mkdir_ok w (trace w) ''build/'' then Print ''INFO: Created 'build/' directory''
                else PrintStyle ''INFO: 'build/' directory already exists'']
              @ attempt_events (''gcc-11'', ''g++-11'')"
      by (simp add: make_build_dir_trace)
    then show ?thesis by blast
  next
    case False
    with d assms have r2: "r2 = Ret True" and "w1 = w3" by (auto split: if_splits)
    with t2 t3 s2 have "trace w1 = trace w @ ([Mkdir ''build/'',
                if mkdir_ok w (trace w) ''build/'' then Print ''INFO: Created 'build/' directory''
                else PrintStyle ''INFO: 'build/' directory already exists'']
              @ new_events (snd (make_build_dir w)) w2) @ attempt_events (''gcc'', ''g++'')"
      by (simp add: make_build_dir_trace)
    then show ?thesis by blast
  qed
qed

text \<open>
  C6. Configuration tries at most two pairs of compilers, in this order: \<^verbatim>\<open>gcc-11\<close> with
  \<^verbatim>\<open>g++-11\<close>, then \<^verbatim>\<open>gcc\<close> with \<^verbatim>\<open>g++\<close>. Name \<open>r1\<close> the result of the first attempt
  and \<open>r2\<close> the result that the second attempt has in the world the first one leaves. An
  attempt never raises, it returns \<^verbatim>\<open>True\<close> or \<^verbatim>\<open>False\<close>. When the first attempt
  succeeds, \<^verbatim>\<open>do_config\<close> returns in the world of the first attempt and only the first
  pair was put into \<^verbatim>\<open>CC\<close> and \<^verbatim>\<open>CXX\<close>; when it fails the second pair follows; when
  both fail the process ends by \<^verbatim>\<open>sys.exit(-1)\<close>.
\<close>

theorem do_config_tries_primary_then_fallback:
  assumes "do_config_cmd (''gcc-11'', ''g++-11'') (snd (make_build_dir w)) = (r1, w2)"
      and "do_config_cmd (''gcc'', ''g++'') w2 = (r2, w3)"
  shows "do_config w =
           (if r1 = Ret True then (Ret (), w2)
            else if r2 = Ret True then (Ret (), w3)
            else (Raise (SystemExit (- 1)), w3))
         \<and> filter is_setenv (new_events w (snd (do_config w))) =
             [SetEnv ''CC'' ''gcc-11'', SetEnv ''CXX'' ''g++-11'']
             @ (if r1 = Ret True then [] else [SetEnv ''CC'' ''gcc'', SetEnv ''CXX'' ''g++''])
         \<and> (r1 = Ret True \<or> r1 = Ret False)
         \<and> (r2 = Ret True \<or> r2 = Ret False)"
proof -
  define e1 where "e1 = new_events (snd (make_build_dir w)) w2"
  define e2 where "e2 = new_events w2 w3"
  note t1 = make_build_dir_trace [of w]
  from do_config_cmd_shape [where cm = "(''gcc-11'', ''g++-11'')" and w = "snd (make_build_dir w)"]
       assms(1)
  have t2: "trace w2 = trace (snd (make_build_dir w)) @ e1"
    and f1: "filter is_setenv e1 = [SetEnv ''CC'' ''gcc-11'', SetEnv ''CXX'' ''g++-11'']"
    and b1: "r1 = Ret True \<or> r1 = Ret False"
    unfolding e1_def by simp_all
  from do_config_cmd_shape [where cm = "(''gcc'', ''g++'')" and w = w2] assms(2)
  have t3: "trace w3 = trace w2 @ e2"
    and f2: "filter is_setenv e2 = [SetEnv ''CC'' ''gcc'', SetEnv ''CXX'' ''g++'']"
    and b2: "r2 = Ret True \<or> r2 = Ret False"
    unfolding e2_def by simp_all
  note d = do_config_unfold [OF assms]
  have "filter is_setenv (new_events w (snd (do_config w))) =
             [SetEnv ''CC'' ''gcc-11'', SetEnv ''CXX'' ''g++-11'']
             @ (if r1 = Ret True then [] else [SetEnv ''CC'' ''gcc'', SetEnv ''CXX'' ''g++''])"
    unfolding d using t1 t2 t3 f1 f2 by (simp add: new_events_def)
  with d b1 b2 show ?thesis by (intro conjI)
qed

text \<open>
  Three runs: \<^verbatim>\<open>cmake\<close> always fails (two attempts, exit with -1); \<^verbatim>\<open>cmake\<close> fails with
  \<^verbatim>\<open>gcc-11\<close> only (two attempts, normal return); nothing fails (one attempt).
\<close>

theorem do_config_tries_primary_then_fallback_witness:
  "fst (do_config (start [] cmake_fails dir_is_new)) = Raise (SystemExit (- 1))
   \<and> filter is_setenv (new_events (start [] cmake_fails dir_is_new)
                          (snd (do_config (start [] cmake_fails dir_is_new))))
      = [SetEnv ''CC'' ''gcc-11'', SetEnv ''CXX'' ''g++-11'', SetEnv ''CC'' ''gcc'', SetEnv ''CXX'' ''g++'']
   \<and> fst (do_config (start [] no_gcc11 dir_is_new)) = Ret ()
   \<and> filter is_setenv (new_events (start [] no_gcc11 dir_is_new)
                          (snd (do_config (start [] no_gcc11 dir_is_new))))
      = [SetEnv ''CC'' ''gcc-11'', SetEnv ''CXX'' ''g++-11'', SetEnv ''CC'' ''gcc'', SetEnv ''CXX'' ''g++'']
   \<and> fst (do_config (start [] all_succeed dir_is_new)) = Ret ()
   \<and> filter is_setenv (new_events (start [] all_succeed dir_is_new)
                          (snd (do_config (start [] all_succeed dir_is_new))))
      = [SetEnv ''CC'' ''gcc-11'', SetEnv ''CXX'' ''g++-11'']"
proof -
  note ev = do_config_cmd_def config_steps_def seq_def bnd_def ret_def environ_set_def
    print_style_def print_def sp_check_call_def sp_run_def os_mkdir_def make_build_dir_def emit_def
    start_def conan_install_command_def cmake_command_def split_ws_def is_space_def
  let ?P = "(''gcc-11'', ''g++-11'')" and ?F = "(''gcc'', ''g++'')"
  let ?a = "start [] cmake_fails dir_is_new"
  let ?b = "start [] no_gcc11 dir_is_new"
  let ?c = "start [] all_succeed dir_is_new"
  have a1: "fst (do_config_cmd ?P (snd (make_build_dir ?a))) = Ret False"
    by (simp add: ev cmake_fails_def dir_is_new_def)
  have a2: "fst (do_config_cmd ?F (snd (do_config_cmd ?P (snd (make_build_dir ?a))))) = Ret False"
    by (simp add: ev cmake_fails_def dir_is_new_def)
  have b1: "fst (do_config_cmd ?P (snd (make_build_dir ?b))) = Ret False"
    by (simp add: ev no_gcc11_def dir_is_new_def)
  have b2: "fst (do_config_cmd ?F (snd (do_config_cmd ?P (snd (make_build_dir ?b))))) = Ret True"
    by (simp add: ev no_gcc11_def dir_is_new_def)
  have c1: "fst (do_config_cmd ?P (snd (make_build_dir ?c))) = Ret True"
    by (simp add: ev all_succeed_def dir_is_new_def)
  note Ta = do_config_tries_primary_then_fallback
              [OF prod.collapse [symmetric] prod.collapse [symmetric], of ?a]
  note Tb = do_config_tries_primary_then_fallback
              [OF prod.collapse [symmetric] prod.collapse [symmetric], of ?b]
  note Tc = do_config_tries_primary_then_fallback
              [OF prod.collapse [symmetric] prod.collapse [symmetric], of ?c]
  from Ta [THEN conjunct1] a1 a2
  have A1: "fst (do_config ?a) = Raise (SystemExit (- 1))" by simp
  from Ta [THEN conjunct2, THEN conjunct1] a1
  have A2: "filter is_setenv (new_events ?a (snd (do_config ?a)))
      = [SetEnv ''CC'' ''gcc-11'', SetEnv ''CXX'' ''g++-11'', SetEnv ''CC'' ''gcc'', SetEnv ''CXX'' ''g++'']"
    by simp
  from Tb [THEN conjunct1] b1 b2
  have B1: "fst (do_config ?b) = Ret ()" by simp
  from Tb [THEN conjunct2, THEN conjunct1] b1
  have B2: "filter is_setenv (new_events ?b (snd (do_config ?b)))
      = [SetEnv ''CC'' ''gcc-11'', SetEnv ''CXX'' ''g++-11'', SetEnv ''CC'' ''gcc'', SetEnv ''CXX'' ''g++'']"
    by simp
  from Tc [THEN conjunct1] c1
  have C1: "fst (do_config ?c) = Ret ()" by simp
  from Tc [THEN conjunct2, THEN conjunct1] c1
  have C2: "filter is_setenv (new_events ?c (snd (do_config ?c)))
      = [SetEnv ''CC'' ''gcc-11'', SetEnv ''CXX'' ''g++-11'']"
    by simp
  from A1 A2 B1 B2 C1 C2 show ?thesis by (intro conjI)
qed

section \<open>Properties of the retry gate\<close>

lemma autocomplete_closed:
  "\<not> retry_avail w \<Longrightarrow> autocomplete arg w = (Ret PyFalse, w)"
  by (simp add: autocomplete_def)

lemma parse_unknown_closed:
  assumes "\<not> retry_avail w" "cmd_argc \<le> 1"
    and "cmd \<notin> {''build'', ''config'', ''test'', ''clean'', ''mrproper'', ''lint'', ''doc'', ''version''}"
  shows "parse cmd_line cmd cmd_args cmd_argc w = (Ret (), emit (Print [CHR 0x0A]) (snd (usage w)))"
proof -
  let ?w1 = "emit (Print [CHR 0x0A]) (snd (usage w))"
  have "\<not> retry_avail ?w1" using assms(1) by (simp add: usage_def print_def emit_def)
  then have "autocomplete cmd ?w1 = (Ret PyFalse, ?w1)" by (rule autocomplete_closed)
  then have "seq usage (seq (print [CHR 0x0A]) (autocomplete cmd)) w = (Ret PyFalse, ?w1)"
    by (simp add: seq_def bnd_def usage_def print_def)
  with assms(2,3) show ?thesis
    by (simp add: parse.simps [of cmd_line cmd cmd_args cmd_argc w])
qed

lemma keeps_gateD: "keeps_gate m \<Longrightarrow> retry_avail (snd (m w)) = retry_avail w"
  by (simp add: keeps_gate_def)

lemma keeps_gate_bnd:
  assumes "keeps_gate m" and "\<And>v. keeps_gate (f v)"
  shows "keeps_gate (bnd m f)"
  unfolding keeps_gate_def
proof
  fix w
  show "retry_avail (snd (bnd m f w)) = retry_avail w"
  proof (cases "m w")
    case (Pair r w')
    with keeps_gateD [OF assms(1), of w] have g: "retry_avail w' = retry_avail w" by simp
    show ?thesis
    proof (cases r)
      case (Ret v)
      with Pair g keeps_gateD [OF assms(2), of v w'] show ?thesis by (simp add: bnd_def)
    next
      case (Raise e)
      with Pair g show ?thesis by (simp add: bnd_def)
    qed
  qed
qed

lemma keeps_gate_seq: "keeps_gate m \<Longrightarrow> keeps_gate k \<Longrightarrow> keeps_gate (seq m k)"
  by (simp add: seq_def keeps_gate_bnd)

lemma keeps_gate_prims:
  "keeps_gate (ret v)" "keeps_gate (lift r)" "keeps_gate (\<lambda>w. (Raise e, w))"
  "keeps_gate (print s)" "keeps_gate (print_style s)" "keeps_gate (input p)"
  "keeps_gate (environ_set k v')" "keeps_gate (sp_run argv)" "keeps_gate (sp_run_shell c)"
  "keeps_gate (sp_check_call argv)" "keeps_gate (os_mkdir path)"
  by (simp_all add: keeps_gate_def ret_def lift_def print_def print_style_def input_def
        environ_set_def sp_run_def sp_run_shell_def sp_check_call_def os_mkdir_def emit_def
        split: list.splits outcome.splits)

lemma keeps_gate_do_if: "keeps_gate (do_if cmd msg q)"
  by (simp add: do_if_def Let_def keeps_gate_bnd keeps_gate_prims)

lemma keeps_gate_do_clean: "keeps_gate (do_clean k)"
  by (simp add: do_clean_def keeps_gate_seq keeps_gate_do_if keeps_gate_prims)

lemma keeps_gate_do_config: "keeps_gate do_config"
  unfolding keeps_gate_def
proof
  fix w
  obtain r1 w2 where a1: "do_config_cmd (''gcc-11'', ''g++-11'') (snd (make_build_dir w)) = (r1, w2)"
    by (cases "do_config_cmd (''gcc-11'', ''g++-11'') (snd (make_build_dir w))")
  obtain r2 w3 where a2: "do_config_cmd (''gcc'', ''g++'') w2 = (r2, w3)"
    by (cases "do_config_cmd (''gcc'', ''g++'') w2")
  have g1: "retry_avail (snd (make_build_dir w)) = retry_avail w"
    by (simp add: make_build_dir_shape)
  from do_config_cmd_shape [where cm = "(''gcc-11'', ''g++-11'')" and w = "snd (make_build_dir w)"] a1
  have "w2 = (snd (make_build_dir w))
               \<lparr>environ := (environ (snd (make_build_dir w)))(''CC'' \<mapsto> ''gcc-11'', ''CXX'' \<mapsto> ''g++-11''),
                trace := trace (snd (make_build_dir w)) @ new_events (snd (make_build_dir w)) w2\<rparr>"
    by simp
  then have "retry_avail w2 = retry_avail (snd (make_build_dir w))"
    by (rule ssubst) simp
  with g1 have g2: "retry_avail w2 = retry_avail w" by simp
  from do_config_cmd_shape [where cm = "(''gcc'', ''g++'')" and w = w2] a2
  have "w3 = w2\<lparr>environ := (environ w2)(''CC'' \<mapsto> ''gcc'', ''CXX'' \<mapsto> ''g++''),
                  trace := trace w2 @ new_events w2 w3\<rparr>"
    by simp
  then have "retry_avail w3 = retry_avail w2"
    by (rule ssubst) simp
  with g2 have g3: "retry_avail w3 = retry_avail w" by simp
  from do_config_unfold [OF a1 a2] g2 g3
  show "retry_avail (snd (do_config w)) = retry_avail w" by simp
qed

lemma keeps_gate_do_build: "keeps_gate (do_build test doc)"
  by (simp add: do_build_def keeps_gate_seq keeps_gate_do_config keeps_gate_prims)

lemma keeps_gate_others:
  "keeps_gate do_run_test" "keeps_gate do_updoc" "keeps_gate do_lint" "keeps_gate usage"
  by (simp_all add: do_run_test_def do_updoc_def do_lint_def usage_def keeps_gate_seq keeps_gate_prims)

lemma parse_gate_stays_closed:
  assumes "\<not> retry_avail w"
  shows "\<not> retry_avail (snd (parse cmd_line cmd cmd_args cmd_argc w))"
proof -
  note k = keeps_gate_bnd keeps_gate_seq keeps_gate_prims keeps_gate_do_build keeps_gate_do_config
    keeps_gate_do_clean keeps_gate_others
  note p = parse.simps [of cmd_line cmd cmd_args cmd_argc w]
  let ?build = "bnd (lift (item0 cmd_args)) (\<lambda>a. do_build (contains ''test'' a) (contains ''doc'' a))"
  let ?test = "seq (do_build True False)
          (bnd (lift (sub_arg_has ''run'' cmd_args cmd_argc)) (\<lambda>run. if run then do_run_test else ret ()))"
  let ?clean = "bnd (lift (sub_arg_has ''force'' cmd_args cmd_argc))
          (\<lambda>has_force. let forced = (has_force \<or> cmd_argc = 0) in
             bnd (lift (sub_arg_has ''kind'' cmd_args cmd_argc)) (\<lambda>kind. do_clean (kind \<and> \<not> forced)))"
  let ?doc = "seq (do_build False True)
          (bnd (lift (sub_arg_has ''up'' cmd_args cmd_argc)) (\<lambda>up. if up then do_updoc else ret ()))"
  have K: "\<not> retry_avail (snd (m w))" if "keeps_gate m" for m :: "unit prog"
    using that assms by (simp add: keeps_gateD)
  consider (stop) "\<not> cmd_argc \<le> 1"
    | (build) "cmd_argc \<le> 1" "cmd = ''build''"
    | (config) "cmd_argc \<le> 1" "cmd = ''config''"
    | (test) "cmd_argc \<le> 1" "cmd = ''test''"
    | (clean) "cmd_argc \<le> 1" "cmd = ''clean'' \<or> cmd = ''mrproper''"
    | (lint) "cmd_argc \<le> 1" "cmd = ''lint''"
    | (doc) "cmd_argc \<le> 1" "cmd = ''doc''"
    | (version) "cmd_argc \<le> 1" "cmd = ''version''"
    | (unknown) "cmd_argc \<le> 1"
        "cmd \<notin> {''build'', ''config'', ''test'', ''clean'', ''mrproper'', ''lint'', ''doc'', ''version''}"
    by (cases "cmd_argc \<le> 1") (simp_all only: insert_iff empty_iff, auto)
  then show ?thesis
  proof cases
    case stop
    with assms show ?thesis by (simp add: parse.simps)
  next
    case build
    then have "parse cmd_line cmd cmd_args cmd_argc w =
                 (if cmd_argc = 1 then ?build w else do_build False False w)"
      by (simp add: parse.simps)
    moreover have "keeps_gate ?build" by (simp add: k)
    ultimately show ?thesis by (simp add: K keeps_gate_do_build)
  next
    case config
    then have "parse cmd_line cmd cmd_args cmd_argc w =
                 (if cmd_argc = 0 then do_config w else (Raise AssertionError, w))"
      by (simp add: parse.simps)
    then show ?thesis using assms by (simp add: K keeps_gate_do_config)
  next
    case test
    then have "parse cmd_line cmd cmd_args cmd_argc w = ?test w" by (simp add: parse.simps)
    moreover have "keeps_gate ?test" by (simp add: k)
    ultimately show ?thesis by (simp add: K)
  next
    case clean
    then have "parse cmd_line cmd cmd_args cmd_argc w = ?clean w" by (auto simp: parse.simps)
    moreover have "keeps_gate ?clean" by (simp add: k Let_def)
    ultimately show ?thesis by (simp add: K)
  next
    case lint
    then have "parse cmd_line cmd cmd_args cmd_argc w =
                 (if cmd_argc = 0 then do_lint w else (Raise AssertionError, w))"
      by (simp add: parse.simps)
    then show ?thesis using assms by (simp add: K keeps_gate_others)
  next
    case doc
    then have "parse cmd_line cmd cmd_args cmd_argc w = ?doc w" by (simp add: parse.simps)
    moreover have "keeps_gate ?doc" by (simp add: k)
    ultimately show ?thesis by (simp add: K)
  next
    case version
    then have "parse cmd_line cmd cmd_args cmd_argc w = print ''Eugene 0.01'' w" by (simp add: parse.simps)
    then show ?thesis by (simp add: K [OF keeps_gate_prims(4)])
  next
    case unknown
    from parse_unknown_closed [OF assms unknown] assms show ?thesis
      by (simp add: usage_def print_def emit_def)
  qed
qed

text \<open>
  C2. The retry gate lets the fuzzy matcher try once in a run. Every call of the matcher
  leaves the gate closed; a call that finds the gate closed returns \<^verbatim>\<open>False\<close> (no
  suggestion) at once and leaves the world as it was, so it looks at no name, prints nothing
  and reads no answer; hence a call that follows another call never suggests anything. For
  the dispatcher: an unknown command that arrives while the gate is closed gets the usage
  block and the empty line, and nothing else; and no command opens a closed gate again.
\<close>

theorem retry_gate_single_attempt:
  "\<not> retry_avail (snd (autocomplete arg w))
   \<and> (\<not> retry_avail w \<longrightarrow> autocomplete arg w = (Ret PyFalse, w))
   \<and> autocomplete arg2 (snd (autocomplete arg w)) = (Ret PyFalse, snd (autocomplete arg w))
   \<and> (\<not> retry_avail w \<and> cmd_argc \<le> 1
        \<and> cmd \<notin> {''build'', ''config'', ''test'', ''clean'', ''mrproper'', ''lint'', ''doc'', ''version''}
      \<longrightarrow> parse cmd_line cmd cmd_args cmd_argc w
            = (Ret (), emit (Print [CHR 0x0A]) (snd (usage w))))
   \<and> (\<not> retry_avail w \<longrightarrow> \<not> retry_avail (snd (parse cmd_line cmd cmd_args cmd_argc w)))"
proof (intro conjI impI)
  show "\<not> retry_avail (snd (parse cmd_line cmd cmd_args cmd_argc w))" if "\<not> retry_avail w"
    using that by (rule parse_gate_stays_closed)
next
  show "\<not> retry_avail (snd (autocomplete arg w))"
    by (rule autocomplete_closes_gate)
  show "autocomplete arg w = (Ret PyFalse, w)" if "\<not> retry_avail w"
    using that by (rule autocomplete_closed)
  show "autocomplete arg2 (snd (autocomplete arg w)) = (Ret PyFalse, snd (autocomplete arg w))"
    by (rule autocomplete_closed [OF autocomplete_closes_gate])
  show "parse cmd_line cmd cmd_args cmd_argc w = (Ret (), emit (Print [CHR 0x0A]) (snd (usage w)))"
    if "\<not> retry_avail w \<and> cmd_argc \<le> 1
        \<and> cmd \<notin> {''build'', ''config'', ''test'', ''clean'', ''mrproper'', ''lint'', ''doc'', ''version''}"
  proof -
    from that have a: "\<not> retry_avail w" and b: "cmd_argc \<le> 1"
      and c: "cmd \<notin> {''build'', ''config'', ''test'', ''clean'', ''mrproper'', ''lint'', ''doc'', ''version''}"
      by (rule conjunct1, rule conjunct2 [THEN conjunct1], rule conjunct2 [THEN conjunct2])
    from a b c show ?thesis by (rule parse_unknown_closed)
  qed
qed

theorem retry_gate_single_attempt_witness:
  "\<not> retry_avail after_attempt
   \<and> stdin after_attempt = [''y'']
   \<and> autocomplete ''lint'' after_attempt = (Ret PyFalse, after_attempt)
   \<and> parse [''tset''] ''tset'' [] 0 after_attempt
       = (Ret (), emit (Print [CHR 0x0A]) (snd (usage after_attempt)))
   \<and> \<not> retry_avail (snd (parse [''build''] ''build'' [] 0 after_attempt))"
proof -
  have st: "stdin after_attempt = [''y'']"
    by (simp add: after_attempt_def autocomplete_def start_def AvailableParams_def Param_def
          seq_def bnd_def ret_def print_def print_style_def input_def emit_def lower_def lower_char_def)
  note first = retry_gate_single_attempt
                 [of "''tint''" "start [''n'', ''y''] all_succeed dir_is_new" "''lint''"
                     0 "''tset''" "[''tset'']" "[]"]
  from first have g: "\<not> retry_avail after_attempt"
    unfolding after_attempt_def by (rule conjunct1)
  from first have a: "autocomplete ''lint'' after_attempt = (Ret PyFalse, after_attempt)"
    unfolding after_attempt_def by (rule conjunct2 [THEN conjunct2, THEN conjunct1])
  from retry_gate_single_attempt
         [of "''lint''" after_attempt "''lint''" 0 "''tset''" "[''tset'']" "[]"] g
  have p: "parse [''tset''] ''tset'' [] 0 after_attempt
             = (Ret (), emit (Print [CHR 0x0A]) (snd (usage after_attempt)))"
    by simp
  from retry_gate_single_attempt
         [of "''lint''" after_attempt "''lint''" 0 "''build''" "[''build'']" "[]",
          THEN conjunct2, THEN conjunct2, THEN conjunct2, THEN conjunct2] g
  have q: "\<not> retry_avail (snd (parse [''build''] ''build'' [] 0 after_attempt))"
    by (rule mp)
  from g st a p q show ?thesis by (intro conjI)
qed

section \<open>The dispatcher's assertions\<close>

text \<open>
  C3. With more than one sub-argument (\<open>cmd_argc > 1\<close>) the dispatcher stops on the
  assertion of line 179, whatever the command is. The world that comes back is the world
  that went in: no event was added to the trace (no external program, no output) and the
  environment is untouched. The same holds for the entry point when the argument vector has
  more than three entries (the program, the command and more than one sub-argument).
\<close>

theorem parse_asserts_argc_le_1:
  "(1 < cmd_argc \<longrightarrow> parse cmd_line cmd cmd_args cmd_argc w = (Raise AssertionError, w))
   \<and> (3 < length argv \<longrightarrow> main argv w = (Raise AssertionError, w))"
proof (intro conjI impI)
  show "parse cmd_line cmd cmd_args cmd_argc w = (Raise AssertionError, w)" if "1 < cmd_argc"
    using that by (simp add: parse.simps)
  show "main argv w = (Raise AssertionError, w)" if "3 < length argv"
    using that by (simp add: main_def Let_def parse.simps)
qed

theorem parse_asserts_argc_le_1_witness:
  "(1::int) < 2
   \<and> parse [''build'', ''test'', ''doc''] ''build'' [''test'', ''doc''] 2
        (start [] all_succeed dir_is_new)
      = (Raise AssertionError, start [] all_succeed dir_is_new)
   \<and> main [''eugene.py'', ''Build'', ''test'', ''doc''] (start [] all_succeed dir_is_new)
      = (Raise AssertionError, start [] all_succeed dir_is_new)"
  using parse_asserts_argc_le_1
    [of 2 "[''build'', ''test'', ''doc'']" "''build''" "[''test'', ''doc'']"
        "start [] all_succeed dir_is_new" "[''eugene.py'', ''Build'', ''test'', ''doc'']"]
  by simp

text \<open>
  C9. The commands \<^verbatim>\<open>config\<close> and \<^verbatim>\<open>lint\<close> with one sub-argument
  (\<open>cmd_argc = 1\<close>, which line 179 lets through) stop on the assertions of lines 189 and
  203: the extra token is not ignored, and the world that comes back is the world that went
  in, so nothing was run before.
\<close>

theorem config_and_lint_assert_no_sub_argument:
  "parse cmd_line ''config'' cmd_args 1 w = (Raise AssertionError, w)
   \<and> parse cmd_line ''lint'' cmd_args 1 w = (Raise AssertionError, w)"
  by (simp add: parse.simps)

theorem config_and_lint_assert_no_sub_argument_witness:
  "parse [''config'', ''now''] ''config'' [''now''] 1 (start [] all_succeed dir_is_new)
     = (Raise AssertionError, start [] all_succeed dir_is_new)
   \<and> parse [''lint'', ''style''] ''lint'' [''style''] 1 (start [] all_succeed dir_is_new)
     = (Raise AssertionError, start [] all_succeed dir_is_new)"
  using config_and_lint_assert_no_sub_argument
          [of "[''config'', ''now'']" "[''now'']" "start [] all_succeed dir_is_new"]
        config_and_lint_assert_no_sub_argument
          [of "[''lint'', ''style'']" "[''style'']" "start [] all_succeed dir_is_new"]
  by simp

section \<open>Properties of the dispatcher's commands\<close>

lemma parse_clean:
  assumes "cmd = ''clean'' \<or> cmd = ''mrproper''" and "cmd_argc \<le> 1"
  shows "parse cmd_line cmd cmd_args cmd_argc w =
           bnd (lift (sub_arg_has ''force'' cmd_args cmd_argc))
             (\<lambda>has_force.
                bnd (lift (sub_arg_has ''kind'' cmd_args cmd_argc))
                  (\<lambda>kind. do_clean (kind \<and> \<not> (has_force \<or> cmd_argc = 0)))) w"
  using assms by (auto simp: parse.simps [of cmd_line cmd cmd_args cmd_argc w] Let_def)

lemma do_clean_no_prompt:
  "filter is_prompt (new_events w (snd (do_clean False w))) = []"
  by (simp add: do_clean_def do_if_def seq_def bnd_def sp_run_def print_style_def emit_def
        new_events_def split: outcome.splits)

text \<open>
  C5. For \<^verbatim>\<open>clean\<close> and \<^verbatim>\<open>mrproper\<close>, with the sub-arguments as the entry point passes
  them (\<open>cmd_argc\<close> is their number, at most one): \<open>forced\<close> holds exactly when the
  sub-argument contains \<^verbatim>\<open>force\<close> or there is no sub-argument, \<open>kind\<close> holds exactly when
  the sub-argument contains \<^verbatim>\<open>kind\<close>, and the dispatcher does what \<^verbatim>\<open>do_clean\<close> does
  with the flag \<open>kind \<and> \<not> forced\<close>. Without a sub-argument that flag is false, a
  sub-argument that contains \<^verbatim>\<open>force\<close> gives the very same result, and no question is
  asked.
\<close>

theorem clean_asks_only_when_kind_and_not_forced:
  assumes "cmd = ''clean'' \<or> cmd = ''mrproper''"
      and "cmd_argc = int (length cmd_args)" and "cmd_argc \<le> 1"
  shows "parse cmd_line cmd cmd_args cmd_argc w =
           do_clean ((\<exists>a. cmd_args = [a] \<and> contains ''kind'' a)
                     \<and> \<not> ((\<exists>a. cmd_args = [a] \<and> contains ''force'' a) \<or> cmd_args = [])) w
         \<and> parse cmd_line cmd [] 0 w = do_clean False w
         \<and> (contains ''force'' s \<longrightarrow> parse cmd_line cmd [s] 1 w = parse cmd_line cmd [] 0 w)
         \<and> filter is_prompt (new_events w (snd (parse cmd_line cmd [] 0 w))) = []"
proof -
  have none: "parse cmd_line cmd [] 0 w = do_clean False w"
    using assms(1) by (simp add: parse_clean sub_arg_has_def lift_def bnd_def)
  have one: "parse cmd_line cmd [a] 1 w =
               do_clean (contains ''kind'' a \<and> \<not> contains ''force'' a) w" for a
    using assms(1) by (simp add: parse_clean sub_arg_has_def item0_def lift_def bnd_def)
  from assms(2,3) consider "cmd_args = []" "cmd_argc = 0" | a where "cmd_args = [a]" "cmd_argc = 1"
    by (cases cmd_args) auto
  then have main: "parse cmd_line cmd cmd_args cmd_argc w =
           do_clean ((\<exists>a. cmd_args = [a] \<and> contains ''kind'' a)
                     \<and> \<not> ((\<exists>a. cmd_args = [a] \<and> contains ''force'' a) \<or> cmd_args = [])) w"
    by cases (simp_all add: none one)
  have force: "contains ''force'' s \<longrightarrow> parse cmd_line cmd [s] 1 w = parse cmd_line cmd [] 0 w"
    by (simp add: none one)
  have quiet: "filter is_prompt (new_events w (snd (parse cmd_line cmd [] 0 w))) = []"
    unfolding none by (rule do_clean_no_prompt)
  from main none force quiet show ?thesis by (intro conjI)
qed

text \<open>
  \<^verbatim>\<open>clean kind\<close> asks before each removal (the user declines the first and agrees to the
  second); \<^verbatim>\<open>mrproper forcekind\<close> asks nothing; \<^verbatim>\<open>clean\<close> is \<^verbatim>\<open>clean force\<close>.
\<close>

theorem clean_asks_only_when_kind_and_not_forced_witness:
  "new_events (start [''n'', ''y''] all_succeed dir_is_new)
     (snd (parse [''clean'', ''kind''] ''clean'' [''kind''] 1 (start [''n'', ''y''] all_succeed dir_is_new)))
    = [Input ''Removing build directory Ok? '', Input ''Removing build logs Ok? '',
       Run [''rm'', ''-f'', ''build.log''], PrintStyle ''Clean without scratching'']
   \<and> new_events (start [''n'', ''y''] all_succeed dir_is_new)
     (snd (parse [''mrproper'', ''forcekind''] ''mrproper'' [''forcekind''] 1
             (start [''n'', ''y''] all_succeed dir_is_new)))
    = [Run [''rm'', ''-rf'', ''build''], Run [''rm'', ''-f'', ''build.log''],
       PrintStyle ''Clean without scratching'']
   \<and> parse [''clean''] ''clean'' [] 0 (start [''n'', ''y''] all_succeed dir_is_new)
      = parse [''clean'', ''force''] ''clean'' [''force''] 1 (start [''n'', ''y''] all_succeed dir_is_new)"
proof -
  let ?w = "start [''n'', ''y''] all_succeed dir_is_new"
  note ev = do_clean_def do_if_def seq_def bnd_def ret_def input_def sp_run_def print_style_def
    emit_def new_events_def start_def all_succeed_def split_ws_def is_space_def lower_def
    lower_char_def
  from clean_asks_only_when_kind_and_not_forced
         [of "''clean''" 1 "[''kind'']" "[''clean'', ''kind'']" ?w "''force''", THEN conjunct1]
  have "parse [''clean'', ''kind''] ''clean'' [''kind''] 1 ?w = do_clean True ?w"
    by simp
  then have a: "new_events ?w (snd (parse [''clean'', ''kind''] ''clean'' [''kind''] 1 ?w))
    = [Input ''Removing build directory Ok? '', Input ''Removing build logs Ok? '',
       Run [''rm'', ''-f'', ''build.log''], PrintStyle ''Clean without scratching'']"
    by (simp add: ev)
  from clean_asks_only_when_kind_and_not_forced
         [of "''mrproper''" 1 "[''forcekind'']" "[''mrproper'', ''forcekind'']" ?w "''force''",
          THEN conjunct1]
  have "parse [''mrproper'', ''forcekind''] ''mrproper'' [''forcekind''] 1 ?w = do_clean False ?w"
    by simp
  then have b: "new_events ?w (snd (parse [''mrproper'', ''forcekind''] ''mrproper'' [''forcekind''] 1 ?w))
    = [Run [''rm'', ''-rf'', ''build''], Run [''rm'', ''-f'', ''build.log''],
       PrintStyle ''Clean without scratching'']"
    by (simp add: ev)
  from clean_asks_only_when_kind_and_not_forced
         [of "''clean''" 0 "[]" "[''clean'']" ?w "''force''"]
  have "parse [''clean''] ''clean'' [''force''] 1 ?w = parse [''clean''] ''clean'' [] 0 ?w"
    by simp
  moreover have "parse [''clean'', ''force''] ''clean'' [''force''] 1 ?w
                 = parse [''clean''] ''clean'' [''force''] 1 ?w"
    by (simp add: parse_clean)
  ultimately have c: "parse [''clean''] ''clean'' [] 0 ?w
                      = parse [''clean'', ''force''] ''clean'' [''force''] 1 ?w"
    by simp
  from a b c show ?thesis by (intro conjI)
qed

lemma parse_build_one:
  "parse cmd_line ''build'' [a] 1 w = do_build (contains ''test'' a) (contains ''doc'' a) w"
  by (simp add: parse.simps [of cmd_line "''build''" "[a]" 1 w] item0_def lift_def bnd_def)

lemma do_build_after_config:
  assumes "do_config w = (Ret (), w1)"
  shows "do_build True doc w =
           seq (environ_set ''EUGENE_BUILD_TESTS'' ''1'')
          (seq (print_style ''Building project and tests'')
          (seq (sp_run (split_ws ninja_command))
               (if doc then (\<lambda>w. (Raise AssertionError, w)) else ret ()))) w1"
  using assms by (simp add: do_build_def seq_def bnd_def)

lemma do_build_config_failed:
  assumes "do_config w = (Raise e, w1)"
  shows "do_build test doc w = (Raise e, w1)"
  using assms by (simp add: do_build_def seq_def bnd_def)

text \<open>
  C4, as the code has it. For \<^verbatim>\<open>build\<close> with one sub-argument that contains \<^verbatim>\<open>test\<close>
  and does not contain \<^verbatim>\<open>doc\<close>: the configuration workflow runs first. When it returns
  normally, in the world \<open>w1\<close>, the flag \<^verbatim>\<open>EUGENE_BUILD_TESTS\<close> is set to \<^verbatim>\<open>1\<close> after
  it, and the build command \<^verbatim>\<open>ninja\<close> is started after the flag; when \<^verbatim>\<open>ninja\<close> could be
  started the dispatcher returns normally, whatever its exit status \<open>n\<close>, and nothing
  follows the build. The trace of \<open>w1\<close> ends with the events of a successful
  configuration attempt, so the four invocations of the configuration come before the flag.
\<close>

theorem build_with_tests_configures_then_sets_flag_then_builds:
  assumes "contains ''test'' a" and "\<not> contains ''doc'' a"
    and "do_config w = (Ret (), w1)"
    and "spawn w1 (trace w1 @ [SetEnv ''EUGENE_BUILD_TESTS'' ''1'',
                               PrintStyle ''Building project and tests''])
           (split_ws ninja_command) = Exited n"
  shows "parse cmd_line ''build'' [a] 1 w =
           (Ret (), w1\<lparr>environ := (environ w1)(''EUGENE_BUILD_TESTS'' \<mapsto> ''1''),
                       trace := trace w1 @ [SetEnv ''EUGENE_BUILD_TESTS'' ''1'',
                                            PrintStyle ''Building project and tests'',
                                            Run (split_ws ninja_command)]\<rparr>)
         \<and> (\<exists>before cm. cm \<in> {(''gcc-11'', ''g++-11''), (''gcc'', ''g++'')}
                \<and> trace w1 = trace w @ before @ attempt_events cm)"
proof -
  have "parse cmd_line ''build'' [a] 1 w = do_build True False w"
    using assms(1,2) by (simp add: parse_build_one)
  also have "\<dots> = (Ret (), w1\<lparr>environ := (environ w1)(''EUGENE_BUILD_TESTS'' \<mapsto> ''1''),
                       trace := trace w1 @ [SetEnv ''EUGENE_BUILD_TESTS'' ''1'',
                                            PrintStyle ''Building project and tests'',
                                            Run (split_ws ninja_command)]\<rparr>)"
    using assms(4)
    by (simp add: do_build_after_config [OF assms(3)] seq_def bnd_def ret_def environ_set_def
          print_style_def sp_run_def emit_def)
  finally show ?thesis
    using do_config_success_trace [OF assms(3)] by (intro conjI)
qed

text \<open>Two runs of the configuration workflow, evaluated.\<close>

lemma do_config_all_succeed:
  "fst (do_config (start [] all_succeed dir_is_new)) = Ret ()"
  "trace (snd (do_config (start [] all_succeed dir_is_new))) =
     [Mkdir ''build/'', Print ''INFO: Created 'build/' directory'',
      SetEnv ''CC'' ''gcc-11'', SetEnv ''CXX'' ''g++-11'',
      PrintStyle ''Trying to configure project ...'',
      CheckCall [''conan'', ''install'', ''.'', ''-if'', ''build'', ''--build=missing''],
      Run [''conan'', ''install'', ''.'', ''-if'', ''build'', ''--build=missing''],
      CheckCall [''cmake'', ''-S.'', ''-Bbuild'', ''-GNinja'', ''-DCMAKE_C_COMPILER=gcc-11'',
                 ''-DCMAKE_CXX_COMPILER=g++-11''],
      Run [''cmake'', ''-S.'', ''-Bbuild'', ''-GNinja'', ''-DCMAKE_C_COMPILER=gcc-11'',
           ''-DCMAKE_CXX_COMPILER=g++-11''],
      PrintStyle ''Configuration successful!'']"
  "spawn (snd (do_config (start [] all_succeed dir_is_new))) = all_succeed"
  by (simp_all add: do_config_def do_config_cmd_def config_steps_def seq_def bnd_def ret_def
        environ_set_def print_style_def print_def sp_check_call_def sp_run_def os_mkdir_def
        make_build_dir_def emit_def start_def conan_install_command_def cmake_command_def
        split_ws_def is_space_def all_succeed_def dir_is_new_def)

lemma do_config_cmake_fails:
  "do_config (start [] cmake_fails dir_is_new) =
     (Raise (SystemExit (- 1)), snd (do_config (start [] cmake_fails dir_is_new)))"
  "environ (snd (do_config (start [] cmake_fails dir_is_new))) ''EUGENE_BUILD_TESTS'' = None"
  by (simp_all add: do_config_def do_config_cmd_def config_steps_def seq_def bnd_def ret_def
        environ_set_def print_style_def print_def sp_check_call_def sp_run_def os_mkdir_def
        make_build_dir_def emit_def start_def conan_install_command_def cmake_command_def
        split_ws_def is_space_def cmake_fails_def dir_is_new_def)

theorem build_with_tests_configures_then_sets_flag_then_builds_witness:
  "contains ''test'' ''test'' \<and> \<not> contains ''doc'' ''test''
   \<and> fst (do_config (start [] all_succeed dir_is_new)) = Ret ()
   \<and> parse [''build'', ''test''] ''build'' [''test''] 1 (start [] all_succeed dir_is_new) =
       (Ret (), (snd (do_config (start [] all_succeed dir_is_new)))
          \<lparr>environ := (environ (snd (do_config (start [] all_succeed dir_is_new))))
                         (''EUGENE_BUILD_TESTS'' \<mapsto> ''1''),
           trace := trace (snd (do_config (start [] all_succeed dir_is_new)))
                    @ [SetEnv ''EUGENE_BUILD_TESTS'' ''1'',
                       PrintStyle ''Building project and tests'',
                       Run [''ninja'', ''-Cbuild'', ''-j4'']]\<rparr>)"
proof -
  let ?w = "start [] all_succeed dir_is_new"
  have c: "do_config ?w = (Ret (), snd (do_config ?w))"
    using do_config_all_succeed(1) by (simp add: prod_eq_iff)
  have t: "contains ''test'' ''test''" and d: "\<not> contains ''doc'' ''test''" by simp_all
  have n: "split_ws ninja_command = [''ninja'', ''-Cbuild'', ''-j4'']"
    by (simp add: ninja_command_def split_ws_def is_space_def)
  have s: "spawn (snd (do_config ?w))
             (trace (snd (do_config ?w)) @ [SetEnv ''EUGENE_BUILD_TESTS'' ''1'',
                               PrintStyle ''Building project and tests''])
           (split_ws ninja_command) = Exited 0"
    by (simp add: do_config_all_succeed(3) all_succeed_def)
  from build_with_tests_configures_then_sets_flag_then_builds
         [OF t d c s, of "[''build'', ''test'']", THEN conjunct1]
  have "parse [''build'', ''test''] ''build'' [''test''] 1 ?w =
       (Ret (), (snd (do_config ?w))
          \<lparr>environ := (environ (snd (do_config ?w)))(''EUGENE_BUILD_TESTS'' \<mapsto> ''1''),
           trace := trace (snd (do_config ?w))
                    @ [SetEnv ''EUGENE_BUILD_TESTS'' ''1'',
                       PrintStyle ''Building project and tests'',
                       Run [''ninja'', ''-Cbuild'', ''-j4'']]\<rparr>)"
    unfolding n .
  with t d do_config_all_succeed(1) show ?thesis by (intro conjI)
qed

text \<open>
  C4 as the spec states it does not hold. The sub-argument \<^verbatim>\<open>testdoc\<close> contains
  \<^verbatim>\<open>test\<close> and the run ends on the assertion of line 135. In the run of
  \<^verbatim>\<open>build test\<close> where every program succeeds, the flag is set after the configuration
  and not before it. In the run where \<^verbatim>\<open>cmake\<close> fails, the process exits with -1 and the
  flag is never set.
\<close>

theorem build_test_claim_counterexample:
  "contains ''test'' ''testdoc''
   \<and> fst (parse [''build'', ''testdoc''] ''build'' [''testdoc''] 1 (start [] all_succeed dir_is_new))
       = Raise AssertionError
   \<and> trace (snd (parse [''build'', ''test''] ''build'' [''test''] 1 (start [] all_succeed dir_is_new)))
       = [Mkdir ''build/'', Print ''INFO: Created 'build/' directory'',
          SetEnv ''CC'' ''gcc-11'', SetEnv ''CXX'' ''g++-11'',
          PrintStyle ''Trying to configure project ...'',
          CheckCall [''conan'', ''install'', ''.'', ''-if'', ''build'', ''--build=missing''],
          Run [''conan'', ''install'', ''.'', ''-if'', ''build'', ''--build=missing''],
          CheckCall [''cmake'', ''-S.'', ''-Bbuild'', ''-GNinja'', ''-DCMAKE_C_COMPILER=gcc-11'',
                     ''-DCMAKE_CXX_COMPILER=g++-11''],
          Run [''cmake'', ''-S.'', ''-Bbuild'', ''-GNinja'', ''-DCMAKE_C_COMPILER=gcc-11'',
               ''-DCMAKE_CXX_COMPILER=g++-11''],
          PrintStyle ''Configuration successful!'',
          SetEnv ''EUGENE_BUILD_TESTS'' ''1'',
          PrintStyle ''Building project and tests'',
          Run [''ninja'', ''-Cbuild'', ''-j4'']]
   \<and> parse [''build'', ''test''] ''build'' [''test''] 1 (start [] cmake_fails dir_is_new)
       = (Raise (SystemExit (- 1)), snd (do_config (start [] cmake_fails dir_is_new)))
   \<and> environ (snd (parse [''build'', ''test''] ''build'' [''test''] 1 (start [] cmake_fails dir_is_new)))
        ''EUGENE_BUILD_TESTS'' = None"
proof -
  let ?w = "start [] all_succeed dir_is_new"
  let ?v = "start [] cmake_fails dir_is_new"
  have c: "do_config ?w = (Ret (), snd (do_config ?w))"
    using do_config_all_succeed(1) by (simp add: prod_eq_iff)
  have n: "split_ws ninja_command = [''ninja'', ''-Cbuild'', ''-j4'']"
    by (simp add: ninja_command_def split_ws_def is_space_def)
  have a: "contains ''test'' ''testdoc''" by simp
  have b: "fst (parse [''build'', ''testdoc''] ''build'' [''testdoc''] 1 ?w) = Raise AssertionError"
    by (simp add: parse_build_one do_build_after_config [OF c] seq_def bnd_def ret_def
          environ_set_def print_style_def sp_run_def emit_def do_config_all_succeed(3)
          all_succeed_def)
  have t: "trace (snd (parse [''build'', ''test''] ''build'' [''test''] 1 ?w))
           = trace (snd (do_config ?w)) @ [SetEnv ''EUGENE_BUILD_TESTS'' ''1'',
                PrintStyle ''Building project and tests'', Run [''ninja'', ''-Cbuild'', ''-j4'']]"
    by (simp add: parse_build_one do_build_after_config [OF c] seq_def bnd_def ret_def
          environ_set_def print_style_def sp_run_def emit_def do_config_all_succeed(3)
          all_succeed_def n)
  have f: "parse [''build'', ''test''] ''build'' [''test''] 1 ?v
             = (Raise (SystemExit (- 1)), snd (do_config ?v))"
    by (simp add: parse_build_one do_build_config_failed [OF do_config_cmake_fails(1)])
  have e: "environ (snd (parse [''build'', ''test''] ''build'' [''test''] 1 ?v))
             ''EUGENE_BUILD_TESTS'' = None"
    unfolding f by (simp add: do_config_cmake_fails(2))
  from a b t f e show ?thesis
    unfolding do_config_all_succeed(2) by simp
qed

end
